theory Spec2Isabelle
  imports Complex_Main
begin

section \<open>VideoTranscriber: data model\<close>

text \<open>
  The module \<^verbatim>\<open>VideoTranscriber.py\<close> drives external collaborators: the file system,
  the audio extractor, two remote services, the random source, the clock and the logger.
  Every effect is explicit here. The mutable part is a record \<open>world\<close>, threaded through
  every operation; what the outside answers is a record \<open>env\<close> of functions, so that each
  theorem holds for every behaviour of the outside. An exception is a value of type
  \<open>exn\<close>, and a function that may raise returns \<open>exn + 'a\<close> with \<open>Inl\<close> for the raise.
\<close>

subsection \<open>Exceptions\<close>

datatype exn_class =
  FileNotFoundError | FileExistsError | ValueError | TypeError | OverflowError | OSError
  | RemoteError

text \<open>
  \<^verbatim>\<open>_get_retry_time\<close> looks at \<^verbatim>\<open>e.response.headers['retry-after']\<close>, guarded by two
  \<^verbatim>\<open>hasattr\<close> tests and one membership test. An exception therefore carries an optional
  response, which carries optional headers, which are a dictionary from lower-case header
  names to strings.
\<close>

datatype response = Response (headers: "(string \<times> string) list option")

datatype exn = Exn (cls: exn_class) (response: "response option")

subsection \<open>Python floats\<close>

text \<open>
  A Python float is an IEEE 754 binary64 number. A finite one is modelled by the real number
  it denotes. \<open>binade x\<close> is the exponent \<open>e\<close> with \<open>2\<^sup>e \<le> x < 2\<^sup>e\<^sup>+\<^sup>1\<close> for a positive
  \<open>x\<close>; \<open>ulp x\<close> is the distance between neighbouring floats around \<open>x\<close> (53 significant
  bits, and \<open>2\<^sup>-\<^sup>1\<^sup>0\<^sup>7\<^sup>4\<close> in the subnormal range); \<open>fl x\<close> is \<open>x\<close> rounded to the nearest
  multiple of \<open>ulp x\<close>, ties to the even multiple, which is what every arithmetic operation
  on floats returns as long as the result is below \<open>2\<^sup>1\<^sup>0\<^sup>2\<^sup>4\<close> in magnitude.
\<close>

function binade :: "real \<Rightarrow> int" where
  "binade x =
     (if x \<le> 0 then 0
      else if 2 \<le> x then binade (x / 2) + 1
      else if x < 1 then binade (x * 2) - 1
      else 0)"
  by pat_completeness auto
termination
proof (relation "measure (\<lambda>x. if 1 \<le> x then nat \<lfloor>x\<rfloor> else nat \<lceil>1 / x\<rceil>)")
  show "wf (measure (\<lambda>x::real. if 1 \<le> x then nat \<lfloor>x\<rfloor> else nat \<lceil>1 / x\<rceil>))" by simp
next
  fix x :: real
  assume "\<not> x \<le> 0" "2 \<le> x"
  then have "\<lfloor>x / 2\<rfloor> < \<lfloor>x\<rfloor>" by linarith
  moreover have "0 < \<lfloor>x\<rfloor>" using \<open>2 \<le> x\<close> by linarith
  ultimately show "(x / 2, x) \<in> measure (\<lambda>x. if 1 \<le> x then nat \<lfloor>x\<rfloor> else nat \<lceil>1 / x\<rceil>)"
    using \<open>2 \<le> x\<close> by simp
next
  fix x :: real
  assume a: "\<not> x \<le> 0" "\<not> 2 \<le> x" "x < 1"
  show "(x * 2, x) \<in> measure (\<lambda>x. if 1 \<le> x then nat \<lfloor>x\<rfloor> else nat \<lceil>1 / x\<rceil>)"
  proof (cases "1 \<le> x * 2")
    case True
    with a have "\<lfloor>x * 2\<rfloor> = 1" by linarith
    moreover from a True have "1 < 1 / x" by (simp add: field_simps)
    then have "2 \<le> \<lceil>1 / x\<rceil>" by linarith
    ultimately show ?thesis using a True by simp
  next
    case False
    with a have "2 < 1 / x" by (simp add: field_simps)
    moreover have "1 / (x * 2) = (1 / x) / 2" by simp
    ultimately have "\<lceil>1 / (x * 2)\<rceil> < \<lceil>1 / x\<rceil>" by linarith
    moreover have "0 < \<lceil>1 / x\<rceil>" using \<open>2 < 1 / x\<close> by linarith
    ultimately show ?thesis using a False by simp
  qed
qed

definition round_half_even :: "real \<Rightarrow> int" where
  "round_half_even q =
     (let n = \<lfloor>q\<rfloor>
      in if q - of_int n < 1 / 2 then n
         else if 1 / 2 < q - of_int n then n + 1
         else if even n then n else n + 1)"

definition ulp :: "real \<Rightarrow> real" where
  "ulp x = 2 powi (max (binade \<bar>x\<bar>) (- 1022) - 52)"

definition fl :: "real \<Rightarrow> real" where
  "fl x = of_int (round_half_even (x / ulp x)) * ulp x"

text \<open>
  The value of an arithmetic operation on floats whose exact result is \<open>x\<close>: the rounded
  \<open>x\<close>, or an infinity when that is not below \<open>2\<^sup>1\<^sup>0\<^sup>2\<^sup>4\<close> in magnitude.
\<close>

datatype pyfloat = Finite real | PosInf | NegInf

definition rounded :: "real \<Rightarrow> pyfloat" where
  "rounded x =
     (if 2 ^ 1024 \<le> fl x then PosInf
      else if fl x \<le> - (2 ^ 1024) then NegInf
      else Finite (fl x))"

text \<open>
  The conversion of a Python \<^verbatim>\<open>int\<close> to a float, as in \<^verbatim>\<open>int + float\<close>: correctly rounded,
  and OverflowError where the rounded value is not a finite float.
\<close>

definition float_of_int :: "int \<Rightarrow> exn + real" where
  "float_of_int n =
     (if 2 ^ 1024 \<le> \<bar>fl (of_int n)\<bar> then Inl (Exn OverflowError None)
      else Inr (fl (of_int n)))"

text \<open>
  \<^verbatim>\<open>random.uniform(a, b)\<close> is \<^verbatim>\<open>a + (b - a) * self.random()\<close>, here for integers \<open>a\<close> and
  \<open>b\<close> and the value \<open>r\<close> that \<^verbatim>\<open>random()\<close> returned: \<open>b - a\<close> is computed on integers, the
  product and the sum on floats. The integers are taken small enough for the conversions
  and the results to be finite, as 0 and 5 are.
\<close>

definition uniform :: "real \<Rightarrow> int \<Rightarrow> int \<Rightarrow> real" where
  "uniform r a b = fl (of_int a + fl (of_int (b - a) * r))"

subsection \<open>The logger\<close>

text \<open>
  A log record is the level, the text of the f-string with its accents dropped and its
  placeholders removed, and the interpolated values in order.
\<close>

datatype level = INFO | ERROR

datatype arg = S string | I int | R pyfloat | E exn

type_synonym log_entry = "level \<times> string \<times> arg list"

subsection \<open>The world and the environment\<close>

datatype write_fault =
    OpenFails exn        \<comment> \<open>\<^verbatim>\<open>open(path, 'w')\<close> raises: the file is untouched\<close>
  | WriteFails exn nat   \<comment> \<open>\<^verbatim>\<open>f.write\<close> raises after \<open>n\<close> characters reached the truncated file\<close>

record world =
  files :: "string \<rightharpoonup> string"     \<comment> \<open>regular files and their content\<close>
  dirs :: "string set"              \<comment> \<open>directories\<close>
  temps :: nat                      \<comment> \<open>temporary files created so far\<close>
  whisper_calls :: nat              \<comment> \<open>requests sent to the transcription service\<close>
  translator_calls :: nat           \<comment> \<open>requests sent to the translation service\<close>
  draws :: nat                      \<comment> \<open>values drawn from the random source\<close>
  slept :: "real list"              \<comment> \<open>the durations of the completed \<^verbatim>\<open>time.sleep\<close> calls\<close>
  logged :: "log_entry list"        \<comment> \<open>log records, oldest first\<close>

record env =
  whisper_api :: "nat \<Rightarrow> string \<Rightarrow> string \<Rightarrow> string \<Rightarrow> exn + string"
    \<comment> \<open>\<^verbatim>\<open>whisper_client.audio.transcriptions.create\<close>: request number, model, file name,
        file content; the text of the answer, or the exception raised\<close>
  translator_api :: "nat \<Rightarrow> string \<Rightarrow> string \<Rightarrow> exn + string"
    \<comment> \<open>\<^verbatim>\<open>translator_client.invoke\<close>: request number, model, rendered prompt\<close>
  random :: "nat \<Rightarrow> real"
    \<comment> \<open>the \<open>n\<close>-th value of \<^verbatim>\<open>random.random()\<close>, a multiple of \<open>2\<^sup>-\<^sup>5\<^sup>3\<close> in \<open>[0, 1)\<close>\<close>
  py_int :: "string \<Rightarrow> int option"
    \<comment> \<open>the builtin \<^verbatim>\<open>int\<close> on a header value; \<open>None\<close> is ValueError or TypeError\<close>
  str_format :: "string \<Rightarrow> string \<Rightarrow> exn + string"
    \<comment> \<open>\<^verbatim>\<open>template.format(text=t)\<close>\<close>
  video_clip :: "string \<Rightarrow> exn + (exn + string)"
    \<comment> \<open>\<^verbatim>\<open>VideoFileClip(path)\<close> raises, or gives a clip whose
        \<^verbatim>\<open>audio.write_audiofile\<close> raises or produces the wave data\<close>
  temp_name :: "nat \<Rightarrow> string"
    \<comment> \<open>the name \<^verbatim>\<open>tempfile.NamedTemporaryFile\<close> picks for the \<open>n\<close>-th temporary file\<close>
  write_fault :: "string \<Rightarrow> write_fault option"
    \<comment> \<open>how writing a text file at this path fails, if it does\<close>
  path_stem :: "string \<Rightarrow> string"
    \<comment> \<open>\<^verbatim>\<open>Path(p).stem\<close>\<close>
  path_join :: "string \<Rightarrow> string \<Rightarrow> string"
    \<comment> \<open>\<^verbatim>\<open>os.path.join\<close>\<close>

text \<open>The fields of the \<^verbatim>\<open>VideoTranscriber\<close> object.\<close>

record transcriber =
  groq_api_key :: string
  whisper_model :: string
  translation_model :: string
  translation_prompt :: string

definition logger :: "level \<Rightarrow> string \<Rightarrow> arg list \<Rightarrow> world \<Rightarrow> world" where
  "logger lv msg args w = w\<lparr>logged := logged w @ [(lv, msg, args)]\<rparr>"

subsection \<open>String tests\<close>

text \<open>\<^verbatim>\<open>t.startswith(p)\<close> and \<^verbatim>\<open>p in t\<close> on strings.\<close>

fun startswith :: "string \<Rightarrow> string \<Rightarrow> bool" where
  "startswith t [] = True"
| "startswith [] (p # ps) = False"
| "startswith (c # cs) (p # ps) = (c = p \<and> startswith cs ps)"

fun contains :: "string \<Rightarrow> string \<Rightarrow> bool" where
  "contains [] p = (p = [])"
| "contains (c # cs) p = (startswith (c # cs) p \<or> contains cs p)"

section \<open>The retry policy\<close>

definition retry_after_header :: "exn \<Rightarrow> string option" where
  "retry_after_header e =
     (case response e of
        None \<Rightarrow> None
      | Some r \<Rightarrow> (case headers r of None \<Rightarrow> None | Some hs \<Rightarrow> map_of hs ''retry-after''))"

text \<open>
  \<^verbatim>\<open>_get_retry_time\<close>: the base is the integer 60; with a \<^verbatim>\<open>retry-after\<close> header it is
  the header's integer plus 2, or 200 when \<^verbatim>\<open>int\<close> raises. Then \<^verbatim>\<open>random.uniform(0, 5)\<close> is
  drawn, and line 353 adds the integer and the float: the integer is converted to a float,
  which raises OverflowError for a huge hint (outside the \<^verbatim>\<open>try\<close>, so it leaves the
  function), and the sum is rounded.
\<close>

definition get_retry_time :: "env \<Rightarrow> exn \<Rightarrow> world \<Rightarrow> (exn + pyfloat) \<times> world" where
  "get_retry_time env e w =
     (let (retry_after, w1) =
            (case retry_after_header e of
               None \<Rightarrow> (60, w)
             | Some v \<Rightarrow>
                 (case py_int env v of
                    Some h \<Rightarrow> (h + 2, logger INFO ''API sugiere esperar segundos.'' [I (h + 2)] w)
                  | None \<Rightarrow>
                      (200, logger INFO
                         ''No se pudo convertir 'retry-after' a un numero entero.'' [] w)));
          jitter = uniform (random env (draws w1)) 0 5;
          w2 = w1\<lparr>draws := draws w1 + 1\<rparr>
      in case float_of_int retry_after of
           Inl err \<Rightarrow> (Inl err, w2)
         | Inr base \<Rightarrow>
             (let wait_time = rounded (base + jitter)
              in (Inr wait_time, logger INFO ''Reintentando en segundos...'' [R wait_time] w2)))"

text \<open>
  \<^verbatim>\<open>time.sleep\<close>: CPython converts the duration to a signed 64-bit count of nanoseconds
  (the float is multiplied by \<open>10\<^sup>9\<close>) and raises OverflowError when it does not fit; then
  it raises ValueError on a negative duration.
\<close>

definition sleep :: "pyfloat \<Rightarrow> world \<Rightarrow> exn + world" where
  "sleep secs w =
     (case secs of
        Finite t \<Rightarrow>
          if fl (t * 10 ^ 9) < - (2 ^ 63) \<or> 2 ^ 63 \<le> fl (t * 10 ^ 9)
          then Inl (Exn OverflowError None)
          else if t < 0 then Inl (Exn ValueError None)
          else Inr (w\<lparr>slept := slept w @ [t]\<rparr>)
      | PosInf \<Rightarrow> Inl (Exn OverflowError None)
      | NegInf \<Rightarrow> Inl (Exn OverflowError None))"

section \<open>The two remote calls\<close>

definition FALLO_TRANSCRIBIENDO :: string where
  "FALLO_TRANSCRIBIENDO = ''FALLO TRANSCRIBIENDO EN CANTIDAD DE INTENTOS''"

definition FALLO_TRADUCIENDO :: string where
  "FALLO_TRADUCIENDO = ''FALLO TRADUCIENDO EN CANTIDAD DE INTENTOS''"

text \<open>
  The body of the \<^verbatim>\<open>try\<close> of \<^verbatim>\<open>transcribe_audio\<close>: open and read the audio file, then send
  one request. A missing file raises before any request is sent.
\<close>

definition transcription_request ::
  "env \<Rightarrow> transcriber \<Rightarrow> string \<Rightarrow> world \<Rightarrow> (exn + string) \<times> world" where
  "transcription_request env self audio_path w =
     (case files w audio_path of
        None \<Rightarrow> (Inl (Exn FileNotFoundError None), w)
      | Some audio \<Rightarrow>
          (whisper_api env (whisper_calls w) (whisper_model self) audio_path audio,
           w\<lparr>whisper_calls := whisper_calls w + 1\<rparr>))"

function transcribe_audio ::
  "env \<Rightarrow> transcriber \<Rightarrow> string \<Rightarrow> int \<Rightarrow> world \<Rightarrow> (exn + string) \<times> world" where
  "transcribe_audio env self audio_path intento w =
     (if intento > 10 then
        (Inr FALLO_TRANSCRIBIENDO,
         logger ERROR ''FALLO TRANSCRIBIENDO EN CANTIDAD DE INTENTOS'' [] w)
      else
        (case transcription_request env self audio_path
                (logger INFO ''Transcribiendo audio: '' [S audio_path] w) of
           (Inr text, w1) \<Rightarrow>
             (Inr text, logger INFO ''Transcripcion completada exitosamente'' [] w1)
         | (Inl e, w1) \<Rightarrow>
             (case get_retry_time env e
                     (logger ERROR ''Error transcribiendo audio : '' [S audio_path, E e]
                        (logger INFO ''Intento '' [I (intento + 1)] w1)) of
                (Inl e', w2) \<Rightarrow> (Inl e', w2)
              | (Inr retry_after_time, w2) \<Rightarrow>
                  (case sleep retry_after_time w2 of
                     Inl e' \<Rightarrow> (Inl e', w2)
                   | Inr w3 \<Rightarrow> transcribe_audio env self audio_path (intento + 1) w3))))"
  by pat_completeness auto
termination
  by (relation "measure (\<lambda>(env, self, audio_path, intento, w). nat (11 - intento))") auto

text \<open>
  The body of the \<^verbatim>\<open>try\<close> of \<^verbatim>\<open>translate_text\<close>: render the prompt, then send one
  request. A template that \<^verbatim>\<open>format\<close> rejects raises before any request is sent.
\<close>

definition translation_request ::
  "env \<Rightarrow> transcriber \<Rightarrow> string \<Rightarrow> world \<Rightarrow> (exn + string) \<times> world" where
  "translation_request env self text w =
     (case str_format env (translation_prompt self) text of
        Inl e \<Rightarrow> (Inl e, w)
      | Inr prompt \<Rightarrow>
          (translator_api env (translator_calls w) (translation_model self) prompt,
           w\<lparr>translator_calls := translator_calls w + 1\<rparr>))"

function translate_text ::
  "env \<Rightarrow> transcriber \<Rightarrow> string \<Rightarrow> int \<Rightarrow> world \<Rightarrow> (exn + string) \<times> world" where
  "translate_text env self text intento w =
     (if intento > 10 then
        (Inr FALLO_TRADUCIENDO,
         logger ERROR ''FALLO TRADUCIENDO EN CANTIDAD DE INTENTOS'' [] w)
      else
        (case translation_request env self text (logger INFO ''Traduciendo texto...'' [] w) of
           (Inr translation, w1) \<Rightarrow>
             (Inr translation, logger INFO ''Traduccion completada exitosamente'' [] w1)
         | (Inl e, w1) \<Rightarrow>
             (case get_retry_time env e
                     (logger ERROR ''Error traduciendo texto: '' [E e]
                        (logger INFO ''Intento '' [I (intento + 1)] w1)) of
                (Inl e', w2) \<Rightarrow> (Inl e', w2)
              | (Inr retry_after_time, w2) \<Rightarrow>
                  (case sleep retry_after_time w2 of
                     Inl e' \<Rightarrow> (Inl e', w2)
                   | Inr w3 \<Rightarrow> translate_text env self text (intento + 1) w3))))"
  by pat_completeness auto
termination
  by (relation "measure (\<lambda>(env, self, text, intento, w). nat (11 - intento))") auto

section \<open>Configuration\<close>

text \<open>
  \<^verbatim>\<open>set_translation_prompt\<close> mutates the object; the model returns the object after the
  call next to the outcome.
\<close>

definition set_translation_prompt ::
  "string \<Rightarrow> transcriber \<Rightarrow> world \<Rightarrow> (exn + unit) \<times> transcriber \<times> world" where
  "set_translation_prompt prompt self w =
     (if \<not> contains prompt ''{text}'' then (Inl (Exn ValueError None), self, w)
      else (Inr (), self\<lparr>translation_prompt := prompt\<rparr>,
            logger INFO ''Prompt de traduccion actualizado'' [] w))"

section \<open>Audio extraction and persistence\<close>

text \<open>
  \<^verbatim>\<open>extract_audio\<close>: the temporary file is created (empty, \<^verbatim>\<open>delete=False\<close>) after the
  clip has been opened and before the audio is written into it. Both failures are logged
  and raised again. The creation of the temporary file itself is taken to succeed.
\<close>

definition extract_audio :: "env \<Rightarrow> string \<Rightarrow> world \<Rightarrow> (exn + string) \<times> world" where
  "extract_audio env video w =
     (let w1 = logger INFO ''Extrayendo audio de: '' [S video] w in
      case video_clip env video of
        Inl e \<Rightarrow> (Inl e, logger ERROR ''Error extrayendo audio de : '' [S video, E e] w1)
      | Inr clip \<Rightarrow>
          (let audio_path = temp_name env (temps w1);
               w2 = w1\<lparr>files := (files w1)(audio_path \<mapsto> []), temps := temps w1 + 1\<rparr>
           in case clip of
                Inl e \<Rightarrow>
                  (Inl e, logger ERROR ''Error extrayendo audio de : '' [S video, E e] w2)
              | Inr audio \<Rightarrow>
                  (Inr audio_path,
                   logger INFO ''Audio extraido exitosamente: '' [S audio_path]
                     (w2\<lparr>files := (files w2)(audio_path \<mapsto> audio)\<rparr>))))"

text \<open>
  \<^verbatim>\<open>save_text\<close>: the handler of its \<^verbatim>\<open>try\<close> logs the exception and ends; the function
  then returns \<^verbatim>\<open>None\<close>. The result type still has a place for a raise, so that what the
  function does not do can be stated.
\<close>

definition save_text :: "env \<Rightarrow> string \<Rightarrow> string \<Rightarrow> world \<Rightarrow> (exn + unit) \<times> world" where
  "save_text env text file_path w =
     (case write_fault env file_path of
        None \<Rightarrow>
          (Inr (), logger INFO ''Archivo guardado: '' [S file_path]
                     (w\<lparr>files := (files w)(file_path \<mapsto> text)\<rparr>))
      | Some (OpenFails e) \<Rightarrow>
          (Inr (), logger ERROR ''Error guardando archivo : '' [S file_path, E e] w)
      | Some (WriteFails e n) \<Rightarrow>
          (Inr (), logger ERROR ''Error guardando archivo : '' [S file_path, E e]
                     (w\<lparr>files := (files w)(file_path \<mapsto> take n text)\<rparr>)))"

section \<open>The pipeline\<close>

text \<open>The dictionary \<^verbatim>\<open>process_video\<close> returns when \<^verbatim>\<open>return_results\<close> is set.\<close>

record result =
  transcription :: string
  translation :: "string option"
  video_path :: string

definition path_exists :: "world \<Rightarrow> string \<Rightarrow> bool" where
  "path_exists w p = (files w p \<noteq> None \<or> p \<in> dirs w)"

text \<open>
  \<^verbatim>\<open>os.makedirs(d, exist_ok=True)\<close> raises when a regular file is in the way; other
  failures of the operating system are not modelled.
\<close>

definition makedirs :: "string \<Rightarrow> world \<Rightarrow> exn + world" where
  "makedirs d w =
     (if files w d \<noteq> None then Inl (Exn FileExistsError None)
      else Inr (w\<lparr>dirs := insert d (dirs w)\<rparr>))"

text \<open>Lines 271 and 272: \<^verbatim>\<open>if save and results_path: os.makedirs(...)\<close>.\<close>

definition ensure_results_dir :: "string option \<Rightarrow> bool \<Rightarrow> world \<Rightarrow> exn + world" where
  "ensure_results_dir results_path save w =
     (case results_path of
        None \<Rightarrow> Inr w
      | Some d \<Rightarrow> if save \<and> d \<noteq> [] then makedirs d w else Inr w)"

text \<open>\<^verbatim>\<open>os.unlink\<close> on a regular file.\<close>

definition unlink :: "string \<Rightarrow> world \<Rightarrow> world" where
  "unlink p w = w\<lparr>files := (files w)(p := None)\<rparr>"

text \<open>The test of line 285: \<^verbatim>\<open>"FALLO TRANSCRIBIENDO" in transcription\<close>.\<close>

definition transcription_failed :: "string \<Rightarrow> bool" where
  "transcription_failed transcript = contains transcript ''FALLO TRANSCRIBIENDO''"

text \<open>
  Lines 302 to 307: with \<^verbatim>\<open>save\<close> set and a non-empty \<^verbatim>\<open>results_path\<close>, the two texts are
  written, the transcription first.
\<close>

definition save_results ::
  "env \<Rightarrow> string option \<Rightarrow> bool \<Rightarrow> string \<Rightarrow> string \<Rightarrow> string \<Rightarrow> world \<Rightarrow> (exn + unit) \<times> world"
  where
  "save_results env results_path save video_filename transcript translated w =
     (case results_path of
        None \<Rightarrow> (Inr (), w)
      | Some d \<Rightarrow>
          if save \<and> d \<noteq> [] then
            (let transcription_file = path_join env d (video_filename @ ''_transcription.txt'');
                 translation_file = path_join env d (video_filename @ ''_translation.txt'')
             in case save_text env transcript transcription_file w of
                  (Inl e, w1) \<Rightarrow> (Inl e, w1)
                | (Inr u, w1) \<Rightarrow> save_text env translated translation_file w1)
          else (Inr (), w))"

text \<open>The body of the inner \<^verbatim>\<open>try\<close> of \<^verbatim>\<open>process_video\<close>, lines 281 to 317.\<close>

definition process_audio ::
  "env \<Rightarrow> transcriber \<Rightarrow> string \<Rightarrow> string option \<Rightarrow> bool \<Rightarrow> bool \<Rightarrow> string \<Rightarrow> world
     \<Rightarrow> (exn + result option) \<times> world" where
  "process_audio env self video results_path save return_results audio_path w =
     (case transcribe_audio env self audio_path 0 w of
        (Inl e, w1) \<Rightarrow> (Inl e, w1)
      | (Inr transcript, w1) \<Rightarrow>
          if transcription_failed transcript then
            (Inr (if return_results
                  then Some \<lparr>transcription = transcript, translation = None, video_path = video\<rparr>
                  else None),
             logger ERROR ''Error en transcripcion por limite de intentos'' [] w1)
          else
            (case translate_text env self transcript 0 w1 of
               (Inl e, w2) \<Rightarrow> (Inl e, w2)
             | (Inr translated, w2) \<Rightarrow>
                 (case save_results env results_path save (path_stem env video)
                         transcript translated w2 of
                    (Inl e, w3) \<Rightarrow> (Inl e, w3)
                  | (Inr u, w3) \<Rightarrow>
                      (Inr (if return_results
                            then Some \<lparr>transcription = transcript,
                                       translation = Some translated, video_path = video\<rparr>
                            else None),
                       logger INFO ''Video procesado exitosamente: '' [S video] w3))))"

text \<open>
  \<^verbatim>\<open>process_video\<close>. The existence test and \<^verbatim>\<open>os.makedirs\<close> come before the outer
  \<^verbatim>\<open>try\<close>, so what they raise is not logged by its handler. The \<^verbatim>\<open>finally\<close> clause runs
  after the inner body whatever its outcome.
\<close>

definition process_video ::
  "env \<Rightarrow> transcriber \<Rightarrow> string \<Rightarrow> string option \<Rightarrow> bool \<Rightarrow> bool \<Rightarrow> world
     \<Rightarrow> (exn + result option) \<times> world" where
  "process_video env self video results_path save return_results w =
     (if \<not> path_exists w video then
        (Inl (Exn FileNotFoundError None), logger ERROR ''Archivo no encontrado: '' [S video] w)
      else
        (case ensure_results_dir results_path save w of
           Inl e \<Rightarrow> (Inl e, w)
         | Inr w1 \<Rightarrow>
             (case (case extract_audio env video
                           (logger INFO ''Procesando video: '' [S video] w1) of
                      (Inl e, w2) \<Rightarrow> (Inl e, w2)
                    | (Inr audio_path, w2) \<Rightarrow>
                        (case process_audio env self video results_path save return_results
                                audio_path w2 of
                           (r, w3) \<Rightarrow>
                             (r, if path_exists w3 audio_path then unlink audio_path w3 else w3)))
              of
                (Inl e, w4) \<Rightarrow>
                  (Inl e, logger ERROR ''Error procesando video : '' [S video, E e] w4)
              | (Inr r, w4) \<Rightarrow> (Inr r, w4))))"

text \<open>
  The test of line 524 in the batch front end, on what \<^verbatim>\<open>process_video\<close> returned:
  \<^verbatim>\<open>resultado and resultado['transcription'] and not
  resultado['transcription'].startswith('FALLO')\<close>.
\<close>

definition batch_success :: "result option \<Rightarrow> bool" where
  "batch_success resultado =
     (case resultado of
        None \<Rightarrow> False
      | Some r \<Rightarrow> transcription r \<noteq> [] \<and> \<not> startswith (transcription r) ''FALLO'')"

text \<open>
  The body of the loop of the front end for one video, lines 515 to 543, as far as the two
  counters go (what is printed is left out). The argument is what \<^verbatim>\<open>process_video\<close> did.
  When the test of line 524 passes, the two previews are computed before the video is
  counted as processed, and \<^verbatim>\<open>len(resultado['translation'])\<close> raises TypeError on
  \<^verbatim>\<open>None\<close>; the handler of line 541 counts every exception as an error.
\<close>

record summary =
  processed_count :: nat
  error_count :: nat

definition preview :: "string \<Rightarrow> string" where
  "preview s = (if length s > 100 then take 100 s @ ''...'' else s)"

definition translation_preview :: "string option \<Rightarrow> exn + string" where
  "translation_preview tr =
     (case tr of None \<Rightarrow> Inl (Exn TypeError None) | Some s \<Rightarrow> Inr (preview s))"

definition batch_step :: "exn + result option \<Rightarrow> summary \<Rightarrow> summary" where
  "batch_step outcome s =
     (case outcome of
        Inl e \<Rightarrow> s\<lparr>error_count := error_count s + 1\<rparr>
      | Inr resultado \<Rightarrow>
          if batch_success resultado then
            (case resultado of
               None \<Rightarrow> s\<lparr>error_count := error_count s + 1\<rparr>
             | Some r \<Rightarrow>
                 (case translation_preview (translation r) of
                    Inl e \<Rightarrow> s\<lparr>error_count := error_count s + 1\<rparr>
                  | Inr p \<Rightarrow> s\<lparr>processed_count := processed_count s + 1\<rparr>))
          else s\<lparr>error_count := error_count s + 1\<rparr>)"

section \<open>Concrete scenarios\<close>

text \<open>
  Stand-ins for the library functions, each agreeing with Python on the inputs the
  scenarios use: \<open>plain_int\<close> reads an ASCII decimal numeral with an optional minus sign,
  \<open>render\<close> replaces every \<^verbatim>\<open>{text}\<close> of a template that has no other brace, and
  \<open>drop_extension\<close> removes a three-letter extension from a file name without directory.
\<close>

fun digits_value :: "string \<Rightarrow> nat \<Rightarrow> nat option" where
  "digits_value [] acc = Some acc"
| "digits_value (c # cs) acc =
     (if c \<in> set ''0123456789'' then digits_value cs (10 * acc + (of_char c - 48)) else None)"

definition plain_int :: "string \<Rightarrow> int option" where
  "plain_int s =
     (case s of
        [] \<Rightarrow> None
      | c # cs \<Rightarrow>
          if c = CHR ''-'' then
            (if cs = [] then None else map_option (\<lambda>n. - int n) (digits_value cs 0))
          else map_option int (digits_value s 0))"

fun render :: "string \<Rightarrow> string \<Rightarrow> string" where
  "render [] t = []"
| "render (c # cs) t =
     (if startswith (c # cs) ''{text}'' then t @ render (drop 5 cs) t else c # render cs t)"

definition drop_extension :: "string \<Rightarrow> string" where
  "drop_extension p = take (length p - 4) p"

text \<open>
  The end-to-end test of the specification: the transcription service answers
  \<^verbatim>\<open>hello world\<close>, the translation service \<^verbatim>\<open>hola mundo\<close>, nothing fails.
\<close>

definition env_ok :: env where
  "env_ok =
     \<lparr>whisper_api = (\<lambda>n model name audio. Inr ''hello world''),
      translator_api = (\<lambda>n model prompt. Inr ''hola mundo''),
      random = (\<lambda>n. 0),
      py_int = plain_int,
      str_format = (\<lambda>template t. Inr (render template t)),
      video_clip = (\<lambda>p. Inr (Inr ''RIFF'')),
      temp_name = (\<lambda>n. ''/tmp/tmp0.wav''),
      write_fault = (\<lambda>p. None),
      path_stem = drop_extension,
      path_join = (\<lambda>d f. d @ ''/'' @ f)\<rparr>"

text \<open>Every request fails with an exception that carries no response.\<close>

definition env_whisper_down :: env where
  "env_whisper_down = env_ok\<lparr>whisper_api := (\<lambda>n model name audio. Inl (Exn RemoteError None))\<rparr>"

definition env_translator_down :: env where
  "env_translator_down = env_ok\<lparr>translator_api := (\<lambda>n model prompt. Inl (Exn RemoteError None))\<rparr>"

text \<open>No file can be opened for writing.\<close>

definition env_read_only :: env where
  "env_read_only = env_ok\<lparr>write_fault := (\<lambda>p. Some (OpenFails (Exn OSError None)))\<rparr>"

definition self0 :: transcriber where
  "self0 =
     \<lparr>groq_api_key = ''key'', whisper_model = ''whisper-large-v3'',
      translation_model = ''openai/gpt-oss-120b'', translation_prompt = ''Traduce: {text}''\<rparr>"

definition world0 :: world where
  "world0 =
     \<lparr>files = [''x.mp4'' \<mapsto> ''video''], dirs = {}, temps = 0, whisper_calls = 0,
      translator_calls = 0, draws = 0, slept = [], logged = []\<rparr>"


text \<open>
  The translation service answers every request with a \<^verbatim>\<open>retry-after\<close> header of
  \<^verbatim>\<open>-100\<close>, so the computed wait is negative and \<^verbatim>\<open>time.sleep\<close> raises.
\<close>

definition env_negative_hint :: env where
  "env_negative_hint =
     env_ok\<lparr>translator_api := (\<lambda>n model prompt.
       Inl (Exn RemoteError (Some (Response (Some [(''retry-after'', ''-100'')])))))\<rparr>"

text \<open>The transcription service answers with a text that has the failure marker inside.\<close>

definition env_marker_inside :: env where
  "env_marker_inside =
     env_ok\<lparr>whisper_api := (\<lambda>n model name audio. Inr ''no hubo FALLO TRANSCRIBIENDO'')\<rparr>"







text \<open>The counters of the front end before the first video (lines 509 and 510).\<close>

definition summary0 :: summary where
  "summary0 = \<lparr>processed_count = 0, error_count = 0\<rparr>"

section \<open>Rounding\<close>

text \<open>
  The recursion equation of \<open>binade\<close> is unconditional and is unfolded by hand. The facts
  needed about \<open>fl\<close>: an integer of magnitude at most \<open>2\<^sup>5\<^sup>3\<close> is a float, and rounding
  never crosses it; rounding is odd.
\<close>

declare binade.simps [simp del]


lemma binade_bounds:
  "0 < x \<Longrightarrow> 2 powi (binade x) \<le> x \<and> x < 2 powi (binade x + 1)"
proof (induction x rule: binade.induct)
  case (1 x)
  note unfold = binade.simps [of x]
  show ?case
  proof (cases "2 \<le> x")
    case True
    with "1.prems" have b: "binade x = binade (x / 2) + 1" by (simp add: unfold)
    from "1.IH"(1) "1.prems" True
    have "2 powi (binade (x / 2)) \<le> x / 2 \<and> x / 2 < 2 powi (binade (x / 2) + 1)" by simp
    then show ?thesis by (simp add: b power_int_add)
  next
    case False
    show ?thesis
    proof (cases "x < 1")
      case True
      with "1.prems" False have b: "binade x = binade (x * 2) - 1" by (simp add: unfold)
      from "1.IH"(2) "1.prems" False True
      have "2 powi (binade (x * 2)) \<le> x * 2 \<and> x * 2 < 2 powi (binade (x * 2) + 1)" by simp
      then show ?thesis by (simp add: b power_int_add power_int_diff)
    next
      case False
      with "1.prems" \<open>\<not> 2 \<le> x\<close> have "binade x = 0" by (simp add: unfold)
      with False \<open>\<not> 2 \<le> x\<close> show ?thesis by simp
    qed
  qed
qed

lemma rhe_le: "q < of_int n + 1 / 2 \<Longrightarrow> round_half_even q \<le> n"
  unfolding round_half_even_def Let_def by (auto; linarith)

lemma rhe_ge: "of_int n - 1 / 2 < q \<Longrightarrow> n \<le> round_half_even q"
  unfolding round_half_even_def Let_def by (auto; linarith)

lemma rhe_of_int: "round_half_even (of_int n) = n"
  by (simp add: round_half_even_def)

lemma ulp_pos: "0 < ulp x"
  by (simp add: ulp_def)


lemma power_int_2_less_imp:
  assumes "(2::real) powi m < 2 powi n"
  shows "m < n"
proof (rule ccontr)
  assume "\<not> m < n"
  then have "n \<le> m" by simp
  then have "(2::real) powi n \<le> 2 powi m" by (intro power_int_increasing) simp_all
  with assms show False by linarith
qed

lemma binade_unique:
  assumes "2 powi e \<le> x" and "x < 2 powi (e + 1)"
  shows "binade x = e"
proof -
  have pos: "0 < x" using assms(1) zero_less_power_int [of "2::real" e] by linarith
  note b = binade_bounds [OF pos]
  have "(2::real) powi e < 2 powi (binade x + 1)" using assms(1) b by linarith
  then have "e < binade x + 1" by (rule power_int_2_less_imp)
  moreover have "(2::real) powi (binade x) < 2 powi (e + 1)" using assms(2) b by linarith
  then have "binade x < e + 1" by (rule power_int_2_less_imp)
  ultimately show ?thesis by simp
qed

lemma int_on_grid:
  assumes "k \<le> 0"
  shows "of_int a / (2 powi k :: real) = of_int (a * 2 ^ nat (- k))"
proof -
  from assms have "k = - int (nat (- k))" by simp
  then have "(2::real) powi k = inverse (2 powi (int (nat (- k))))"
    by (metis power_int_minus)
  then have "(2::real) powi k = inverse (2 ^ nat (- k))"
    by (simp only: power_int_of_nat)
  then show ?thesis by (simp add: field_simps)
qed

lemma fl_ge_int:
  assumes "\<bar>a\<bar> \<le> 2 ^ 53" and "of_int a \<le> x"
  shows "of_int a \<le> fl x"
proof -
  define k where "k = max (binade \<bar>x\<bar>) (- 1022) - 52"
  define q where "q = x / 2 powi k"
  have u: "ulp x = 2 powi k" by (simp add: ulp_def k_def)
  have upos: "(0::real) < 2 powi k" by simp
  have flx: "fl x = of_int (round_half_even q) * 2 powi k" by (simp add: fl_def u q_def)
  have xq: "x = q * 2 powi k" by (simp add: q_def)
  show ?thesis
  proof (cases "k \<le> 0")
    case True
    define m where "m = a * 2 ^ nat (- k)"
    have am: "of_int a / (2 powi k :: real) = of_int m"
      unfolding m_def by (rule int_on_grid [OF True])
    from assms(2) upos have "of_int a / 2 powi k \<le> q"
      by (simp add: divide_right_mono q_def)
    with am have "of_int m - 1 / 2 < q" by linarith
    then have "m \<le> round_half_even q" by (rule rhe_ge)
    then have "(of_int m :: real) \<le> of_int (round_half_even q)"
      by (simp only: of_int_le_iff)
    then have "of_int m * 2 powi k \<le> of_int (round_half_even q) * (2 powi k :: real)"
      using upos by (simp add: mult_right_mono)
    moreover from am upos have "of_int m * 2 powi k = (of_int a :: real)"
      by (simp add: field_simps)
    ultimately show ?thesis using flx by linarith
  next
    case False
    then have bin: "53 \<le> binade \<bar>x\<bar>" and kb: "k = binade \<bar>x\<bar> - 52"
      by (simp_all add: k_def)
    have xne: "0 < \<bar>x\<bar>"
    proof (rule ccontr)
      assume "\<not> 0 < \<bar>x\<bar>"
      then have "x = 0" by simp
      then have "binade \<bar>x\<bar> = 0" by (simp add: binade.simps [of 0])
      with bin show False by simp
    qed
    note bb = binade_bounds [OF xne]
    define c :: int where "c = 2 ^ 52"
    have creal: "(of_int c :: real) = 2 powi 52" by (simp add: c_def)
    have cu: "(of_int c :: real) * 2 powi k = 2 powi (binade \<bar>x\<bar>)"
    proof -
      have "(2::real) powi (52 + k) = 2 powi 52 * 2 powi k"
        by (rule power_int_add) simp
      moreover have "52 + k = binade \<bar>x\<bar>" by (simp add: kb)
      ultimately show ?thesis by (simp only: creal)
    qed
    have big: "(2::real) powi 53 \<le> 2 powi (binade \<bar>x\<bar>)"
      using bin by (intro power_int_increasing) simp_all
    have areal: "\<bar>of_int a :: real\<bar> \<le> 2 powi 53"
    proof -
      have "(of_int \<bar>a\<bar> :: real) \<le> of_int (2 ^ 53)" using assms(1) by (simp only: of_int_le_iff)
      then show ?thesis by simp
    qed
    show ?thesis
    proof (cases "0 < x")
      case True
      with bb have "2 powi (binade \<bar>x\<bar>) \<le> x" by simp
      with cu xq have "of_int c * 2 powi k \<le> q * 2 powi k" by simp
      with upos have "of_int c \<le> q" by (simp only: mult_le_cancel_right_pos)
      then have "of_int c - 1 / 2 < q" by linarith
      then have "c \<le> round_half_even q" by (rule rhe_ge)
      then have "(of_int c :: real) \<le> of_int (round_half_even q)"
        by (simp only: of_int_le_iff)
      then have "of_int c * 2 powi k \<le> of_int (round_half_even q) * (2 powi k :: real)"
        using upos by (simp only: mult_le_cancel_right_pos)
      with cu flx have "2 powi (binade \<bar>x\<bar>) \<le> fl x" by linarith
      with big areal show ?thesis by linarith
    next
      case False
      with xne have neg: "x < 0" by simp
      with bb big have "x \<le> - (2 powi 53)" by simp
      with assms(2) areal have xa: "x = of_int a" and x53: "x = - (2 powi 53)" by linarith+
      have "binade \<bar>x\<bar> = 53" by (rule binade_unique) (simp_all add: x53)
      then have k1: "k = 1" by (simp add: kb)
      have qc: "q = of_int (- c)" by (simp add: q_def x53 k1 c_def)
      have "round_half_even q = - c" unfolding qc by (rule rhe_of_int)
      then have "of_int (round_half_even q) = q" by (simp only: qc)
      with flx xq have "fl x = x" by simp
      with xa show ?thesis by simp
    qed
  qed
qed


lemma rhe_minus: "round_half_even (- q) = - round_half_even q"
proof (cases "q = of_int \<lfloor>q\<rfloor>")
  case True
  then have "- q = of_int (- \<lfloor>q\<rfloor>)" by simp
  then have "round_half_even (- q) = - \<lfloor>q\<rfloor>" by (metis rhe_of_int)
  moreover from True have "round_half_even q = \<lfloor>q\<rfloor>" by (metis rhe_of_int)
  ultimately show ?thesis by simp
next
  case False
  define n where "n = \<lfloor>q\<rfloor>"
  from False have lt: "of_int n < q" "q < of_int n + 1" unfolding n_def by linarith+
  then have fm: "\<lfloor>- q\<rfloor> = - n - 1" by linarith
  have a: "round_half_even q =
      (if q - of_int n < 1 / 2 then n else if 1 / 2 < q - of_int n then n + 1
       else if even n then n else n + 1)"
    by (simp add: round_half_even_def n_def)
  have b: "round_half_even (- q) =
      (if - q - of_int (- n - 1) < 1 / 2 then - n - 1
       else if 1 / 2 < - q - of_int (- n - 1) then - n - 1 + 1
       else if even (- n - 1) then - n - 1 else - n - 1 + 1)"
    unfolding round_half_even_def fm Let_def ..
  show ?thesis unfolding a b by auto
qed

lemma binade_abs_minus: "binade \<bar>- x\<bar> = binade \<bar>x\<bar>"
  by simp

lemma fl_minus: "fl (- x) = - fl x"
  by (simp add: fl_def ulp_def rhe_minus)

lemma fl_le_int:
  assumes "\<bar>a\<bar> \<le> 2 ^ 53" and "x \<le> of_int a"
  shows "fl x \<le> of_int a"
proof -
  from assms have "\<bar>- a\<bar> \<le> 2 ^ 53" and "of_int (- a) \<le> - x" by simp_all
  then have "of_int (- a) \<le> fl (- x)" by (rule fl_ge_int)
  then show ?thesis by (simp add: fl_minus)
qed

lemma fl_of_int:
  assumes "\<bar>a\<bar> \<le> 2 ^ 53"
  shows "fl (of_int a) = of_int a"
  using fl_ge_int [OF assms, of "of_int a"] fl_le_int [OF assms, of "of_int a"] by simp


lemma fl_below_5:
  assumes "0 \<le> x" and "x \<le> 5 - 5 / 2 ^ 53"
  shows "fl x \<le> 5 - 1 / 2 ^ 50"
proof (cases "x < 4")
  case True
  then have "x \<le> of_int 4" by simp
  then have "fl x \<le> of_int 4" by (rule fl_le_int [rotated]) simp
  then show ?thesis by simp
next
  case False
  have "binade \<bar>x\<bar> = 2" using False assms by (intro binade_unique) simp_all
  then have u: "ulp x = 2 powi (- 50)" by (simp add: ulp_def)
  define c :: int where "c = 5 * 2 ^ 50 - 1"
  have "x / 2 powi (- 50) = x * 2 ^ 50" by (simp add: power_int_minus field_simps)
  also have "\<dots> \<le> (5 - 5 / 2 ^ 53) * 2 ^ 50" using assms(2) by simp
  also have "\<dots> < of_int c + 1 / 2" by (simp add: c_def)
  finally have "round_half_even (x / 2 powi (- 50)) \<le> c" by (rule rhe_le)
  then have "(of_int (round_half_even (x / 2 powi (- 50))) :: real) \<le> of_int c"
    by (simp only: of_int_le_iff)
  then have "of_int (round_half_even (x / 2 powi (- 50))) * 2 powi (- 50)
               \<le> (of_int c :: real) * 2 powi (- 50)"
    by (simp only: mult_le_cancel_right_pos zero_less_power_int zero_less_numeral)
  moreover have "(of_int c :: real) * 2 powi (- 50) = 5 - 1 / 2 ^ 50"
    by (simp add: c_def power_int_minus field_simps)
  ultimately show ?thesis by (simp only: fl_def u)
qed


section \<open>Frame properties of the retry loops\<close>

text \<open>
  The recursion equations of the two loops are unconditional, so they are taken out of
  the simplifier and unfolded one call at a time.
\<close>

declare transcribe_audio.simps [simp del] translate_text.simps [simp del]

lemma logger_fields [simp]:
  "files (logger lv m a w) = files w"
  "dirs (logger lv m a w) = dirs w"
  "temps (logger lv m a w) = temps w"
  "whisper_calls (logger lv m a w) = whisper_calls w"
  "translator_calls (logger lv m a w) = translator_calls w"
  "draws (logger lv m a w) = draws w"
  "slept (logger lv m a w) = slept w"
  "logged (logger lv m a w) = logged w @ [(lv, m, a)]"
  by (simp_all add: logger_def)

lemma path_exists_logger [simp]: "path_exists (logger lv m a w) p = path_exists w p"
  by (simp add: path_exists_def)

lemma get_retry_time_frame:
  assumes "get_retry_time env e w = (t, w')"
  shows "files w' = files w \<and> dirs w' = dirs w \<and> temps w' = temps w
       \<and> whisper_calls w' = whisper_calls w \<and> translator_calls w' = translator_calls w"
  using assms by (auto simp: get_retry_time_def Let_def split: option.splits sum.splits)

lemma sleep_frame:
  assumes "sleep t w = Inr w'"
  shows "files w' = files w \<and> dirs w' = dirs w \<and> temps w' = temps w
       \<and> whisper_calls w' = whisper_calls w \<and> translator_calls w' = translator_calls w"
  using assms by (auto simp: sleep_def split: if_splits pyfloat.splits)

lemma transcription_request_frame:
  assumes "transcription_request env self p w = (r, w')"
  shows "files w' = files w \<and> dirs w' = dirs w \<and> temps w' = temps w
       \<and> translator_calls w' = translator_calls w
       \<and> whisper_calls w' \<le> whisper_calls w + 1"
  using assms by (auto simp: transcription_request_def split: option.splits)

lemma translation_request_frame:
  assumes "translation_request env self t w = (r, w')"
  shows "files w' = files w \<and> dirs w' = dirs w \<and> temps w' = temps w
       \<and> whisper_calls w' = whisper_calls w
       \<and> translator_calls w' \<le> translator_calls w + 1"
  using assms by (auto simp: translation_request_def split: sum.splits)


lemma transcribe_audio_frame:
  "transcribe_audio env self p i w = (r, w') \<Longrightarrow>
     files w' = files w \<and> dirs w' = dirs w \<and> temps w' = temps w
     \<and> translator_calls w' = translator_calls w
     \<and> whisper_calls w' \<le> whisper_calls w + nat (11 - i)"
proof (induction env self p i w arbitrary: r w' rule: transcribe_audio.induct)
  case (1 env self p i w)
  note unfold = transcribe_audio.simps [of env self p i w]
  show ?case
  proof (cases "10 < i")
    case True
    with "1.prems" have "w' = logger ERROR ''FALLO TRANSCRIBIENDO EN CANTIDAD DE INTENTOS'' [] w"
      by (simp add: unfold)
    then show ?thesis by simp
  next
    case False
    obtain q w1 where req: "transcription_request env self p
        (logger INFO ''Transcribiendo audio: '' [S p] w) = (q, w1)"
      by (rule prod.exhaust)
    note fr1 = transcription_request_frame [OF req]
    from False have pos: "1 \<le> nat (11 - i)" by simp
    show ?thesis
    proof (cases q)
      case (Inr tx)
      with "1.prems" False req
      have "w' = logger INFO ''Transcripcion completada exitosamente'' [] w1"
        by (simp add: unfold)
      with fr1 pos show ?thesis by simp
    next
      case (Inl e)
      obtain t w2 where grt: "get_retry_time env e
          (logger ERROR ''Error transcribiendo audio : '' [S p, E e]
             (logger INFO ''Intento '' [I (i + 1)] w1)) = (t, w2)"
        by (rule prod.exhaust)
      note fr2 = get_retry_time_frame [OF grt]
      show ?thesis
      proof (cases t)
        case (Inl e')
        with "1.prems" False req \<open>q = Inl e\<close> grt have "w' = w2"
          by (simp add: unfold)
        with fr1 fr2 pos show ?thesis by simp
      next
        case (Inr secs)
        show ?thesis
        proof (cases "sleep secs w2")
          case (Inl e')
          with "1.prems" False req \<open>q = Inl e\<close> grt \<open>t = Inr secs\<close> have "w' = w2"
            by (simp add: unfold)
          with fr1 fr2 pos show ?thesis by simp
        next
          case (Inr w3)
          note fr3 = sleep_frame [OF Inr]
          from "1.prems" False req \<open>q = Inl e\<close> grt \<open>t = Inr secs\<close> Inr
          have rec: "transcribe_audio env self p (i + 1) w3 = (r, w')"
            by (simp add: unfold)
          from "1.IH" [OF False req [symmetric] \<open>q = Inl e\<close> grt [symmetric]
                          \<open>t = Inr secs\<close> Inr rec]
        have "whisper_calls w' \<le> whisper_calls w3 + nat (11 - (i + 1))"
          and "files w' = files w3" and "dirs w' = dirs w3" and "temps w' = temps w3"
          and "translator_calls w' = translator_calls w3"
          by simp_all
        moreover have "nat (11 - (i + 1)) + 1 = nat (11 - i)"
          using False by simp
        ultimately show ?thesis using fr1 fr2 fr3 by simp
        qed
      qed
    qed
  qed
qed

lemma translate_text_frame:
  "translate_text env self src i w = (r, w') \<Longrightarrow>
     files w' = files w \<and> dirs w' = dirs w \<and> temps w' = temps w
     \<and> whisper_calls w' = whisper_calls w
     \<and> translator_calls w' \<le> translator_calls w + nat (11 - i)"
proof (induction env self src i w arbitrary: r w' rule: translate_text.induct)
  case (1 env self src i w)
  note unfold = translate_text.simps [of env self src i w]
  show ?case
  proof (cases "10 < i")
    case True
    with "1.prems" have "w' = logger ERROR ''FALLO TRADUCIENDO EN CANTIDAD DE INTENTOS'' [] w"
      by (simp add: unfold)
    then show ?thesis by simp
  next
    case False
    obtain q w1 where req: "translation_request env self src
        (logger INFO ''Traduciendo texto...'' [] w) = (q, w1)"
      by (rule prod.exhaust)
    note fr1 = translation_request_frame [OF req]
    from False have pos: "1 \<le> nat (11 - i)" by simp
    show ?thesis
    proof (cases q)
      case (Inr tx)
      with "1.prems" False req
      have "w' = logger INFO ''Traduccion completada exitosamente'' [] w1"
        by (simp add: unfold)
      with fr1 pos show ?thesis by simp
    next
      case (Inl e)
      obtain t w2 where grt: "get_retry_time env e
          (logger ERROR ''Error traduciendo texto: '' [E e]
             (logger INFO ''Intento '' [I (i + 1)] w1)) = (t, w2)"
        by (rule prod.exhaust)
      note fr2 = get_retry_time_frame [OF grt]
      show ?thesis
      proof (cases t)
        case (Inl e')
        with "1.prems" False req \<open>q = Inl e\<close> grt have "w' = w2"
          by (simp add: unfold)
        with fr1 fr2 pos show ?thesis by simp
      next
        case (Inr secs)
        show ?thesis
        proof (cases "sleep secs w2")
          case (Inl e')
          with "1.prems" False req \<open>q = Inl e\<close> grt \<open>t = Inr secs\<close> have "w' = w2"
            by (simp add: unfold)
          with fr1 fr2 pos show ?thesis by simp
        next
          case (Inr w3)
          note fr3 = sleep_frame [OF Inr]
          from "1.prems" False req \<open>q = Inl e\<close> grt \<open>t = Inr secs\<close> Inr
          have rec: "translate_text env self src (i + 1) w3 = (r, w')"
            by (simp add: unfold)
          from "1.IH" [OF False req [symmetric] \<open>q = Inl e\<close> grt [symmetric]
                          \<open>t = Inr secs\<close> Inr rec]
        have "translator_calls w' \<le> translator_calls w3 + nat (11 - (i + 1))"
          and "files w' = files w3" and "dirs w' = dirs w3" and "temps w' = temps w3"
          and "whisper_calls w' = whisper_calls w3"
          by simp_all
        moreover have "nat (11 - (i + 1)) + 1 = nat (11 - i)"
          using False by simp
        ultimately show ?thesis using fr1 fr2 fr3 by simp
        qed
      qed
    qed
  qed
qed

lemma transcribe_audio_calls:
  "whisper_calls (snd (transcribe_audio env self p i w)) \<le> whisper_calls w + nat (11 - i)"
  using transcribe_audio_frame [of env self p i w] by (cases "transcribe_audio env self p i w") simp

lemma translate_text_calls:
  "translator_calls (snd (translate_text env self src i w)) \<le> translator_calls w + nat (11 - i)"
  using translate_text_frame [of env self src i w] by (cases "translate_text env self src i w") simp

section \<open>Bounded retries\<close>

text \<open>
  Claim C1. For every audio path and every text, the retry loops of \<^verbatim>\<open>transcribe_audio\<close>
  and \<^verbatim>\<open>translate_text\<close> send at most 11 requests when started at attempt 0, and at
  most \<open>11 - intento\<close> when started at attempt \<open>intento\<close>. Called with a counter above
  10 they return the fixed failure string and send no request. Both functions are total:
  their termination is proved with the measure \<open>11 - intento\<close>.
\<close>

theorem retry_loops_bounded:
  "whisper_calls (snd (transcribe_audio env self audio_path 0 w)) \<le> whisper_calls w + 11
   \<and> translator_calls (snd (translate_text env self src 0 w)) \<le> translator_calls w + 11
   \<and> whisper_calls (snd (transcribe_audio env self audio_path intento w))
        \<le> whisper_calls w + nat (11 - intento)
   \<and> translator_calls (snd (translate_text env self src intento w))
        \<le> translator_calls w + nat (11 - intento)
   \<and> (10 < intento \<longrightarrow>
        fst (transcribe_audio env self audio_path intento w) = Inr FALLO_TRANSCRIBIENDO
        \<and> whisper_calls (snd (transcribe_audio env self audio_path intento w)) = whisper_calls w
        \<and> fst (translate_text env self src intento w) = Inr FALLO_TRADUCIENDO
        \<and> translator_calls (snd (translate_text env self src intento w)) = translator_calls w)"
proof -
  have a: "whisper_calls (snd (transcribe_audio env self audio_path 0 w)) \<le> whisper_calls w + 11"
    using transcribe_audio_calls [of env self audio_path 0 w] by simp
  have b: "translator_calls (snd (translate_text env self src 0 w)) \<le> translator_calls w + 11"
    using translate_text_calls [of env self src 0 w] by simp
  have c: "10 < intento \<Longrightarrow>
        fst (transcribe_audio env self audio_path intento w) = Inr FALLO_TRANSCRIBIENDO
        \<and> whisper_calls (snd (transcribe_audio env self audio_path intento w)) = whisper_calls w"
    by (simp add: transcribe_audio.simps [of env self audio_path intento w])
  have d: "10 < intento \<Longrightarrow>
        fst (translate_text env self src intento w) = Inr FALLO_TRADUCIENDO
        \<and> translator_calls (snd (translate_text env self src intento w)) = translator_calls w"
    by (simp add: translate_text.simps [of env self src intento w])
  from a b c d transcribe_audio_calls translate_text_calls show ?thesis by blast
qed

theorem retry_loops_bounded_witness:
  "(10::int) < 11
   \<and> fst (transcribe_audio env_whisper_down self0 ''/tmp/tmp0.wav'' 11 world0) = Inr FALLO_TRANSCRIBIENDO
   \<and> whisper_calls (snd (transcribe_audio env_whisper_down self0 ''/tmp/tmp0.wav'' 11 world0)) = 0
   \<and> fst (translate_text env_whisper_down self0 ''hello world'' 11 world0) = Inr FALLO_TRADUCIENDO
   \<and> translator_calls (snd (translate_text env_whisper_down self0 ''hello world'' 11 world0)) = 0"
  using retry_loops_bounded [where env = env_whisper_down and self = self0 and audio_path = "''/tmp/tmp0.wav''" and w = world0 and src = "''hello world''" and intento = 11]
  by (simp add: world0_def)


section \<open>The string tests, characterised\<close>

lemma startswith_iff: "startswith t p \<longleftrightarrow> (\<exists>b. t = p @ b)"
  by (induction t p rule: startswith.induct) auto

lemma contains_iff: "contains t p \<longleftrightarrow> (\<exists>a b. t = a @ p @ b)"
proof (induction t)
  case Nil
  then show ?case by auto
next
  case (Cons c cs)
  show ?case
  proof
    assume "contains (c # cs) p"
    then consider "startswith (c # cs) p" | "contains cs p" by auto
    then show "\<exists>a b. c # cs = a @ p @ b"
    proof cases
      case 1
      then obtain b where "c # cs = p @ b" by (auto simp: startswith_iff)
      then have "c # cs = [] @ p @ b" by simp
      then show ?thesis by blast
    next
      case 2
      with Cons obtain a b where "cs = a @ p @ b" by auto
      then have "c # cs = (c # a) @ p @ b" by simp
      then show ?thesis by blast
    qed
  next
    assume "\<exists>a b. c # cs = a @ p @ b"
    then obtain a b where ab: "c # cs = a @ p @ b" by blast
    show "contains (c # cs) p"
    proof (cases a)
      case Nil
      with ab have "startswith (c # cs) p" by (auto simp: startswith_iff)
      then show ?thesis by simp
    next
      case (Cons x xs)
      with ab have "cs = xs @ p @ b" by simp
      with Cons.IH have "contains cs p" by blast
      then show ?thesis by simp
    qed
  qed
qed


section \<open>The retry wait\<close>

lemma two_53_finite: "\<bar>y\<bar> \<le> 2 ^ 53 \<Longrightarrow> \<not> (2::real) ^ 1024 \<le> \<bar>y\<bar>"
proof -
  have "(2::real) ^ 53 < 2 ^ 1024" by (rule power_strict_increasing) simp_all
  then show "\<bar>y\<bar> \<le> 2 ^ 53 \<Longrightarrow> \<not> (2::real) ^ 1024 \<le> \<bar>y\<bar>" by linarith
qed

lemma float_of_int_small:
  assumes "\<bar>n\<bar> \<le> 2 ^ 53"
  shows "float_of_int n = Inr (of_int n)"
proof -
  have "(of_int \<bar>n\<bar> :: real) \<le> of_int (2 ^ 53)" using assms by (simp only: of_int_le_iff)
  then have "\<bar>of_int n :: real\<bar> \<le> 2 ^ 53" by simp
  then have "\<not> (2::real) ^ 1024 \<le> \<bar>of_int n\<bar>" by (rule two_53_finite)
  then show ?thesis by (simp add: float_of_int_def fl_of_int [OF assms])
qed

lemma rounded_between:
  assumes "\<bar>a\<bar> \<le> 2 ^ 53" and "\<bar>b\<bar> \<le> 2 ^ 53" and "of_int a \<le> x" and "x \<le> of_int b"
  shows "rounded x = Finite (fl x)" and "of_int a \<le> fl x" and "fl x \<le> of_int b"
proof -
  show lo: "of_int a \<le> fl x" using assms(1) assms(3) by (rule fl_ge_int)
  show hi: "fl x \<le> of_int b" using assms(2) assms(4) by (rule fl_le_int)
  have "(of_int \<bar>a\<bar> :: real) \<le> of_int (2 ^ 53)" using assms(1) by (simp only: of_int_le_iff)
  moreover have "(of_int \<bar>b\<bar> :: real) \<le> of_int (2 ^ 53)"
    using assms(2) by (simp only: of_int_le_iff)
  ultimately have "\<bar>fl x\<bar> \<le> 2 ^ 53" using lo hi by simp
  then have "\<not> (2::real) ^ 1024 \<le> \<bar>fl x\<bar>" by (rule two_53_finite)
  then show "rounded x = Finite (fl x)" by (auto simp: rounded_def)
qed

lemma uniform_0_5:
  assumes "0 \<le> r" and "r \<le> 1 - 1 / 2 ^ 53"
  shows "0 \<le> uniform r 0 5" and "uniform r 0 5 \<le> 5 - 1 / 2 ^ 50"
proof -
  have x0: "of_int 0 \<le> 5 * r" using assms(1) by simp
  have x5: "5 * r \<le> 5 - 5 / 2 ^ 53" using assms(2) by simp
  have y0: "of_int 0 \<le> fl (5 * r)" by (rule fl_ge_int [OF _ x0]) simp
  have y5: "fl (5 * r) \<le> 5 - 1 / 2 ^ 50" using x0 x5 by (intro fl_below_5) simp_all
  have "of_int 0 \<le> fl (fl (5 * r))" by (rule fl_ge_int [OF _ y0]) simp
  moreover have "fl (fl (5 * r)) \<le> 5 - 1 / 2 ^ 50" using y0 y5 by (intro fl_below_5) simp_all
  ultimately show "0 \<le> uniform r 0 5" and "uniform r 0 5 \<le> 5 - 1 / 2 ^ 50"
    by (simp_all add: uniform_def)
qed

lemma sleep_ok:
  assumes "0 \<le> t" and "t \<le> 9000000"
  shows "sleep (Finite t) w = Inr (w\<lparr>slept := slept w @ [t]\<rparr>)"
proof -
  have lo: "of_int 0 \<le> t * 10 ^ 9" using assms(1) by simp
  have hi: "t * 10 ^ 9 \<le> of_int 9000000000000000" using assms(2) by simp
  have "of_int 0 \<le> fl (t * 10 ^ 9)" by (rule fl_ge_int [OF _ lo]) simp
  moreover have "fl (t * 10 ^ 9) \<le> of_int 9000000000000000" by (rule fl_le_int [OF _ hi]) simp
  ultimately show ?thesis using assms(1) by (simp add: sleep_def)
qed

lemma wait_value:
  assumes "- (2 ^ 53) \<le> b" and "b + 5 \<le> 2 ^ 53" and "0 \<le> j" and "j \<le> 5 - 1 / 2 ^ 50"
  shows "float_of_int b = Inr (of_int b)"
    and "rounded (of_int b + j) = Finite (fl (of_int b + j))"
    and "of_int b \<le> fl (of_int b + j)"
    and "fl (of_int b + j) \<le> of_int b + 5"
proof -
  from assms(1,2) have b: "\<bar>b\<bar> \<le> 2 ^ 53" and b5: "\<bar>b + 5\<bar> \<le> 2 ^ 53" by simp_all
  show "float_of_int b = Inr (of_int b)" using b by (rule float_of_int_small)
  have lo: "of_int b \<le> of_int b + j" using assms(3) by simp
  have hi: "of_int b + j \<le> of_int (b + 5)" using assms(4) by simp
  note rb = rounded_between [OF b b5 lo hi]
  show "rounded (of_int b + j) = Finite (fl (of_int b + j))" by (rule rb(1))
  show "of_int b \<le> fl (of_int b + j)" by (rule rb(2))
  show "fl (of_int b + j) \<le> of_int b + 5" using rb(3) by simp
qed



lemma fl_zero: "fl 0 = 0"
  using fl_of_int [of 0] by simp



lemma get_retry_time_no_header:
  assumes "retry_after_header e = None"
  shows "fst (get_retry_time env e w)
           = Inr (rounded (60 + uniform (random env (draws w)) 0 5))"
  using assms float_of_int_small [of 60]
  by (simp add: get_retry_time_def Let_def)



section \<open>Rejecting a prompt without the marker\<close>

text \<open>
  Claim C5. \<^verbatim>\<open>set_translation_prompt\<close> with a template in which \<^verbatim>\<open>{text}\<close> does not occur
  raises ValueError (the specification's InvalidPromptError), and the object, with the
  template configured before, is the same after the call; nothing is logged either.
\<close>

theorem set_translation_prompt_rejects:
  assumes "\<nexists>a b. prompt = a @ ''{text}'' @ b"
  shows "set_translation_prompt prompt self w = (Inl (Exn ValueError None), self, w)"
  using assms by (simp add: set_translation_prompt_def contains_iff)

theorem set_translation_prompt_rejects_witness:
  "set_translation_prompt ''Traduce esto'' self0 world0 = (Inl (Exn ValueError None), self0, world0)"
proof -
  have "contains ''Traduce esto'' ''{text}'' = False" by simp
  with contains_iff [of "''Traduce esto''" "''{text}''"]
  have "\<nexists>a b. ''Traduce esto'' = a @ ''{text}'' @ b" by blast
  then show ?thesis by (rule set_translation_prompt_rejects)
qed

section \<open>A missing video\<close>

text \<open>
  Claim C6. For a path that is neither a file nor a directory, \<^verbatim>\<open>process_video\<close> raises
  FileNotFoundError (the specification's NotFoundError) and writes nothing: the files and
  their contents, the directories and the number of temporary files created are the same
  after the call, so no results directory, no output file and no temporary audio file
  has been created.
\<close>

theorem process_video_missing_file:
  assumes "\<not> path_exists w video"
  shows "fst (process_video env self video results_path save return_results w)
           = Inl (Exn FileNotFoundError None)
       \<and> files (snd (process_video env self video results_path save return_results w)) = files w
       \<and> dirs (snd (process_video env self video results_path save return_results w)) = dirs w
       \<and> temps (snd (process_video env self video results_path save return_results w)) = temps w"
  using assms by (simp add: process_video_def)

theorem process_video_missing_file_witness:
  "fst (process_video env_ok self0 ''y.mp4'' (Some ''out'') True True world0)
           = Inl (Exn FileNotFoundError None)
       \<and> files (snd (process_video env_ok self0 ''y.mp4'' (Some ''out'') True True world0)) = files world0
       \<and> dirs (snd (process_video env_ok self0 ''y.mp4'' (Some ''out'') True True world0)) = dirs world0
       \<and> temps (snd (process_video env_ok self0 ''y.mp4'' (Some ''out'') True True world0)) = temps world0"
proof -
  have "\<not> path_exists world0 ''y.mp4''" by (simp add: path_exists_def world0_def)
  then show ?thesis by (rule process_video_missing_file)
qed


section \<open>The pipeline, step by step\<close>

text \<open>
  A run of \<^verbatim>\<open>process_video\<close> that reaches the inner \<^verbatim>\<open>try\<close> is described by the
  outcomes of its steps: the results directory, the extraction, the transcription, the
  translation. The lemmas of this section compute the result of \<^verbatim>\<open>process_video\<close> from
  these outcomes, and recover the outcomes from a normal return.
\<close>

lemma pair_of_fst: "fst p = a \<Longrightarrow> p = (a, snd p)"
  by (cases p) simp

lemma ensure_results_dir_frame:
  assumes "ensure_results_dir results_path save w = Inr w1"
  shows "files w1 = files w \<and> temps w1 = temps w \<and> whisper_calls w1 = whisper_calls w
       \<and> translator_calls w1 = translator_calls w"
  using assms
  by (auto simp: ensure_results_dir_def makedirs_def split: option.splits if_splits)

lemma extract_audio_Inr:
  assumes "extract_audio env video w = (Inr audio_path, w')"
  shows "audio_path = temp_name env (temps w) \<and> whisper_calls w' = whisper_calls w
       \<and> translator_calls w' = translator_calls w
       \<and> (\<exists>audio. video_clip env video = Inr (Inr audio)
             \<and> files w' = (files w)(audio_path \<mapsto> audio))"
  using assms
  by (auto simp: extract_audio_def Let_def split: sum.splits)

lemma extract_audio_succeeds:
  assumes "video_clip env video = Inr (Inr audio)"
  shows "fst (extract_audio env video w) = Inr (temp_name env (temps w))"
  using assms by (simp add: extract_audio_def Let_def)

lemma unlink_fields [simp]:
  "translator_calls (unlink p w) = translator_calls w"
  "whisper_calls (unlink p w) = whisper_calls w"
  "logged (unlink p w) = logged w"
  "files (unlink p w) = (files w)(p := None)"
  by (simp_all add: unlink_def)

lemma released: "files (if path_exists w p then unlink p w else w) p = None"
  by (simp add: path_exists_def unlink_def)

lemma process_video_run:
  assumes "path_exists w video"
      and "ensure_results_dir results_path save w = Inr w1"
      and "extract_audio env video (logger INFO ''Procesando video: '' [S video] w1)
             = (Inr audio_path, w2)"
      and "process_audio env self video results_path save return_results audio_path w2 = (r, w3)"
  shows "process_video env self video results_path save return_results w =
     (case r of
        Inl e \<Rightarrow>
          (Inl e, logger ERROR ''Error procesando video : '' [S video, E e]
                    (if path_exists w3 audio_path then unlink audio_path w3 else w3))
      | Inr x \<Rightarrow> (Inr x, if path_exists w3 audio_path then unlink audio_path w3 else w3))"
  using assms by (simp add: process_video_def split: sum.splits)

lemma save_text_Inr: "fst (save_text env t p w) = Inr ()"
  by (simp add: save_text_def split: option.splits write_fault.splits)

lemma save_text_written:
  assumes "write_fault env p = None"
  shows "files (snd (save_text env t p w)) = (files w)(p \<mapsto> t)"
  using assms by (simp add: save_text_def)

lemma save_results_Inr: "fst (save_results env results_path save stem t tr w) = Inr ()"
proof -
  have "fst (case save_text env t p w of (Inl e, w1) \<Rightarrow> (Inl e, w1)
             | (Inr u, w1) \<Rightarrow> save_text env tr q w1) = Inr ()" for p q
    using save_text_Inr [of env t p w]
    by (cases "save_text env t p w") (simp add: save_text_Inr)
  then show ?thesis
    by (simp add: save_results_def Let_def split: option.splits)
qed

lemma save_results_None: "save_results env None save stem t tr w = (Inr (), w)"
  by (simp add: save_results_def)

lemma save_results_translation_file:
  assumes "save" and "results_path = Some d" and "d \<noteq> []"
      and "write_fault env (path_join env d (stem @ ''_translation.txt'')) = None"
  shows "files (snd (save_results env results_path save stem t tr w))
           (path_join env d (stem @ ''_translation.txt'')) = Some tr"
proof -
  let ?p = "path_join env d (stem @ ''_transcription.txt'')"
  obtain u w1 where st: "save_text env t ?p w = (u, w1)" by (rule prod.exhaust)
  with save_text_Inr [of env t ?p w] have "u = Inr ()" by simp
  with st assms show ?thesis
    by (simp add: save_results_def Let_def save_text_written)
qed

lemma transcription_failed_iff:
  "transcription_failed t \<longleftrightarrow> (\<exists>a b. t = a @ ''FALLO TRANSCRIBIENDO'' @ b)"
  by (simp add: transcription_failed_def contains_iff)

lemma process_audio_failed:
  assumes "transcribe_audio env self audio_path 0 w = (Inr t, w1)"
      and "transcription_failed t"
  shows "process_audio env self video results_path save return_results audio_path w =
           (Inr (if return_results
                 then Some \<lparr>transcription = t, translation = None, video_path = video\<rparr>
                 else None),
            logger ERROR ''Error en transcripcion por limite de intentos'' [] w1)"
  using assms by (simp add: process_audio_def)

lemma process_audio_translated:
  assumes "transcribe_audio env self audio_path 0 w = (Inr t, w1)"
      and "\<not> transcription_failed t"
      and "translate_text env self t 0 w1 = (Inr tr, w2)"
  shows "process_audio env self video results_path save return_results audio_path w =
           (Inr (if return_results
                 then Some \<lparr>transcription = t, translation = Some tr, video_path = video\<rparr>
                 else None),
            logger INFO ''Video procesado exitosamente: '' [S video]
              (snd (save_results env results_path save (path_stem env video) t tr w2)))"
proof -
  let ?sr = "save_results env results_path save (path_stem env video) t tr w2"
  obtain u w3 where sr: "?sr = (u, w3)" by (rule prod.exhaust)
  with save_results_Inr [of env results_path save "path_stem env video" t tr w2]
  have "u = Inr ()" by simp
  with sr assms show ?thesis by (simp add: process_audio_def)
qed

lemma process_audio_Inr_cases:
  assumes "process_audio env self video results_path save return_results audio_path w = (Inr r, w')"
  shows "\<exists>t w1. transcribe_audio env self audio_path 0 w = (Inr t, w1) \<and>
           (if transcription_failed t
            then r = (if return_results
                      then Some \<lparr>transcription = t, translation = None, video_path = video\<rparr>
                      else None)
            else \<exists>tr w2. translate_text env self t 0 w1 = (Inr tr, w2) \<and>
                   r = (if return_results
                        then Some \<lparr>transcription = t, translation = Some tr, video_path = video\<rparr>
                        else None))"
proof -
  obtain q w1 where ta: "transcribe_audio env self audio_path 0 w = (q, w1)"
    by (rule prod.exhaust)
  show ?thesis
  proof (cases q)
    case (Inl e)
    with ta assms show ?thesis by (simp add: process_audio_def)
  next
    case (Inr t)
    note ta' = ta [unfolded Inr]
    show ?thesis
    proof (cases "transcription_failed t")
      case True
      from process_audio_failed [OF ta' True, of video results_path save return_results] assms
      have "r = (if return_results
                 then Some \<lparr>transcription = t, translation = None, video_path = video\<rparr>
                 else None)" by simp
      with ta' True show ?thesis by simp
    next
      case False
      obtain q2 w2 where tt: "translate_text env self t 0 w1 = (q2, w2)" by (rule prod.exhaust)
      show ?thesis
      proof (cases q2)
        case (Inl e)
        with ta' False tt assms show ?thesis by (simp add: process_audio_def)
      next
        case (Inr tr)
        note tt' = tt [unfolded Inr]
        from process_audio_translated [OF ta' False tt', of video results_path save return_results]
          assms
        have "r = (if return_results
                   then Some \<lparr>transcription = t, translation = Some tr, video_path = video\<rparr>
                   else None)" by simp
        with ta' False tt' show ?thesis by simp
      qed
    qed
  qed
qed

lemma process_video_Inr_cases:
  assumes "process_video env self video results_path save return_results w = (Inr r, w')"
  shows "\<exists>w1 audio_path w2 w3.
           ensure_results_dir results_path save w = Inr w1 \<and>
           extract_audio env video (logger INFO ''Procesando video: '' [S video] w1)
             = (Inr audio_path, w2) \<and>
           process_audio env self video results_path save return_results audio_path w2
             = (Inr r, w3)"
proof -
  from assms have ex: "path_exists w video"
    by (auto simp: process_video_def split: if_splits)
  obtain w1 where dir: "ensure_results_dir results_path save w = Inr w1"
    using assms ex
    by (cases "ensure_results_dir results_path save w") (simp_all add: process_video_def)
  let ?w0 = "logger INFO ''Procesando video: '' [S video] w1"
  obtain q w2 where ea: "extract_audio env video ?w0 = (q, w2)" by (rule prod.exhaust)
  show ?thesis
  proof (cases q)
    case (Inl e)
    with assms ex dir ea show ?thesis by (simp add: process_video_def)
  next
    case (Inr audio_path)
    note ea' = ea [unfolded Inr]
    obtain pr w3 where pa:
      "process_audio env self video results_path save return_results audio_path w2 = (pr, w3)"
      by (rule prod.exhaust)
    from process_video_run [OF ex dir ea' pa] assms have "pr = Inr r"
      by (cases pr) simp_all
    with dir ea' pa show ?thesis by blast
  qed
qed

lemma process_video_short_circuit:
  assumes "path_exists w video"
      and "ensure_results_dir results_path save w = Inr w1"
      and "extract_audio env video (logger INFO ''Procesando video: '' [S video] w1)
             = (Inr audio_path, w2)"
      and "transcribe_audio env self audio_path 0 w2 = (Inr t, w3)"
      and "transcription_failed t"
  shows "process_video env self video results_path save return_results w =
           (Inr (if return_results
                 then Some \<lparr>transcription = t, translation = None, video_path = video\<rparr>
                 else None),
            let w4 = logger ERROR ''Error en transcripcion por limite de intentos'' [] w3
            in if path_exists w4 audio_path then unlink audio_path w4 else w4)"
proof -
  note pa = process_audio_failed [OF assms(4) assms(5), of video results_path save return_results]
  from process_video_run [OF assms(1) assms(2) assms(3) pa] show ?thesis
    by (simp add: Let_def)
qed

lemma run_translator_calls:
  assumes "ensure_results_dir results_path save w = Inr w1"
      and "extract_audio env video (logger INFO ''Procesando video: '' [S video] w1)
             = (Inr audio_path, w2)"
      and "transcribe_audio env self audio_path 0 w2 = (Inr t, w3)"
  shows "translator_calls w3 = translator_calls w"
  using ensure_results_dir_frame [OF assms(1)] extract_audio_Inr [OF assms(2)]
    transcribe_audio_frame [OF assms(3)]
  by simp

lemma process_video_translated:
  assumes "path_exists w video"
      and "ensure_results_dir results_path save w = Inr w1"
      and "extract_audio env video (logger INFO ''Procesando video: '' [S video] w1)
             = (Inr audio_path, w2)"
      and "transcribe_audio env self audio_path 0 w2 = (Inr t, w3)"
      and "\<not> transcription_failed t"
      and "translate_text env self t 0 w3 = (Inr tr, w4)"
  shows "process_video env self video results_path save return_results w =
           (Inr (if return_results
                 then Some \<lparr>transcription = t, translation = Some tr, video_path = video\<rparr>
                 else None),
            let w5 = logger INFO ''Video procesado exitosamente: '' [S video]
                       (snd (save_results env results_path save (path_stem env video) t tr w4))
            in if path_exists w5 audio_path then unlink audio_path w5 else w5)"
proof -
  note pa = process_audio_translated [OF assms(4) assms(5) assms(6),
              of video results_path save return_results]
  from process_video_run [OF assms(1) assms(2) assms(3) pa] show ?thesis
    by (simp add: Let_def)
qed

section \<open>Exhausted retries\<close>

text \<open>
  When every request fails with an exception that carries no \<^verbatim>\<open>retry-after\<close> header and
  the random source stays in its range, each loop sends exactly \<open>11 - intento\<close>
  requests and returns its failure string: the bound of 11 requests is reached.
\<close>

lemma transcribe_audio_exhausted:
  "(\<And>n. \<exists>e. whisper_api env n (whisper_model self) p audio = Inl e
                        \<and> retry_after_header e = None) \<Longrightarrow>
   (\<And>n. 0 \<le> random env n \<and> random env n \<le> 1 - 1 / 2 ^ 53) \<Longrightarrow>
   files w p = Some audio \<Longrightarrow> transcribe_audio env self p i w = (r, w') \<Longrightarrow>
           r = Inr FALLO_TRANSCRIBIENDO \<and> whisper_calls w' = whisper_calls w + nat (11 - i)"
proof (induction env self p i w arbitrary: r w' rule: transcribe_audio.induct)
  case (1 env self p i w)
  note unfold = transcribe_audio.simps [of env self p i w]
  show ?case
  proof (cases "10 < i")
    case True
    with "1.prems"(4) show ?thesis by (auto simp: unfold)
  next
    case False
    let ?w0 = "logger INFO ''Transcribiendo audio: '' [S p] w"
    from "1.prems"(1) obtain e where
      e: "whisper_api env (whisper_calls w) (whisper_model self) p audio = Inl e"
      and h: "retry_after_header e = None" by blast
    let ?w1 = "?w0\<lparr>whisper_calls := whisper_calls ?w0 + 1\<rparr>"
    from e "1.prems"(3) have req: "transcription_request env self p ?w0 = (Inl e, ?w1)"
      by (simp add: transcription_request_def)
    let ?w1' = "logger ERROR ''Error transcribiendo audio : '' [S p, E e]
                  (logger INFO ''Intento '' [I (i + 1)] ?w1)"
    define j where "j = uniform (random env (draws ?w1')) 0 5"
    define t where "t = fl (60 + j)"
    note rnd = "1.prems"(2) [of "draws ?w1'"]
    have "0 \<le> j" and "j \<le> 5 - 1 / 2 ^ 50"
      unfolding j_def
      by (rule uniform_0_5 [OF rnd [THEN conjunct1] rnd [THEN conjunct2]])+
    then have fin: "rounded (60 + j) = Finite t" and "0 \<le> t" and "t \<le> 9000000"
      using wait_value [of 60 j] by (simp_all add: t_def)
    obtain q w2 where grt: "get_retry_time env e ?w1' = (q, w2)" by (rule prod.exhaust)
    with get_retry_time_no_header [OF h, of env ?w1'] fin have q: "q = Inr (Finite t)"
      by (simp add: j_def)
    from \<open>0 \<le> t\<close> \<open>t \<le> 9000000\<close>
    have sl: "sleep (Finite t) w2 = Inr (w2\<lparr>slept := slept w2 @ [t]\<rparr>)" by (rule sleep_ok)
    let ?w3 = "w2\<lparr>slept := slept w2 @ [t]\<rparr>"
    from get_retry_time_frame [OF grt] "1.prems"(3)
    have f3: "files ?w3 p = Some audio" and c3: "whisper_calls ?w3 = whisper_calls w + 1"
      by simp_all
    from "1.prems"(4) False req grt q sl
    have rec: "transcribe_audio env self p (i + 1) ?w3 = (r, w')"
      by (simp add: unfold)
    from "1.IH" [OF False req [symmetric] refl grt [symmetric] q sl "1.prems"(1) "1.prems"(2)
                    f3 rec]
    have "r = Inr FALLO_TRANSCRIBIENDO"
      and "whisper_calls w' = whisper_calls ?w3 + nat (11 - (i + 1))" by simp_all
    moreover have "nat (11 - (i + 1)) + 1 = nat (11 - i)" using False by simp
    ultimately show ?thesis using c3 by simp
  qed
qed

lemma translate_text_exhausted:
  "str_format env (translation_prompt self) src = Inr prompt \<Longrightarrow>
   (\<And>n. \<exists>e. translator_api env n (translation_model self) prompt = Inl e
                        \<and> retry_after_header e = None) \<Longrightarrow>
   (\<And>n. 0 \<le> random env n \<and> random env n \<le> 1 - 1 / 2 ^ 53) \<Longrightarrow>
   translate_text env self src i w = (r, w') \<Longrightarrow>
           r = Inr FALLO_TRADUCIENDO \<and> translator_calls w' = translator_calls w + nat (11 - i)"
proof (induction env self src i w arbitrary: r w' rule: translate_text.induct)
  case (1 env self src i w)
  note unfold = translate_text.simps [of env self src i w]
  show ?case
  proof (cases "10 < i")
    case True
    with "1.prems"(4) show ?thesis by (auto simp: unfold)
  next
    case False
    let ?w0 = "logger INFO ''Traduciendo texto...'' [] w"
    from "1.prems"(2) obtain e where
      e: "translator_api env (translator_calls w) (translation_model self) prompt = Inl e"
      and h: "retry_after_header e = None" by blast
    let ?w1 = "?w0\<lparr>translator_calls := translator_calls ?w0 + 1\<rparr>"
    from e "1.prems"(1) have req: "translation_request env self src ?w0 = (Inl e, ?w1)"
      by (simp add: translation_request_def)
    let ?w1' = "logger ERROR ''Error traduciendo texto: '' [E e]
                  (logger INFO ''Intento '' [I (i + 1)] ?w1)"
    define j where "j = uniform (random env (draws ?w1')) 0 5"
    define t where "t = fl (60 + j)"
    note rnd = "1.prems"(3) [of "draws ?w1'"]
    have "0 \<le> j" and "j \<le> 5 - 1 / 2 ^ 50"
      unfolding j_def
      by (rule uniform_0_5 [OF rnd [THEN conjunct1] rnd [THEN conjunct2]])+
    then have fin: "rounded (60 + j) = Finite t" and "0 \<le> t" and "t \<le> 9000000"
      using wait_value [of 60 j] by (simp_all add: t_def)
    obtain q w2 where grt: "get_retry_time env e ?w1' = (q, w2)" by (rule prod.exhaust)
    with get_retry_time_no_header [OF h, of env ?w1'] fin have q: "q = Inr (Finite t)"
      by (simp add: j_def)
    from \<open>0 \<le> t\<close> \<open>t \<le> 9000000\<close>
    have sl: "sleep (Finite t) w2 = Inr (w2\<lparr>slept := slept w2 @ [t]\<rparr>)" by (rule sleep_ok)
    let ?w3 = "w2\<lparr>slept := slept w2 @ [t]\<rparr>"
    from get_retry_time_frame [OF grt]
    have c3: "translator_calls ?w3 = translator_calls w + 1"
      by simp
    from "1.prems"(4) False req grt q sl
    have rec: "translate_text env self src (i + 1) ?w3 = (r, w')"
      by (simp add: unfold)
    from "1.IH" [OF False req [symmetric] refl grt [symmetric] q sl "1.prems"(1) "1.prems"(2)
                    "1.prems"(3) rec]
    have "r = Inr FALLO_TRADUCIENDO"
      and "translator_calls w' = translator_calls ?w3 + nat (11 - (i + 1))" by simp_all
    moreover have "nat (11 - (i + 1)) + 1 = nat (11 - i)" using False by simp
    ultimately show ?thesis using c3 by simp
  qed
qed

section \<open>Facts about the scenarios\<close>

lemmas eval_defs = Let_def process_video_def process_audio_def path_exists_def makedirs_def
  ensure_results_dir_def extract_audio_def logger_def transcription_request_def
  translation_request_def transcription_failed_def save_results_def save_text_def unlink_def
  get_retry_time_def retry_after_header_def FALLO_TRANSCRIBIENDO_def
  FALLO_TRADUCIENDO_def transcribe_audio.simps translate_text.simps
  env_ok_def env_whisper_down_def env_translator_down_def env_read_only_def
  env_negative_hint_def env_marker_inside_def self0_def world0_def drop_extension_def
  plain_int_def

lemma uniform_zero: "uniform 0 0 5 = 0"
  by (simp add: uniform_def fl_zero)

lemma negative_wait:
  "float_of_int (- 98) = Inr (- 98)"
  "rounded (- 98) = Finite (- 98)"
  "sleep (Finite (- 98)) w = Inl (Exn ValueError None)"
proof -
  show "float_of_int (- 98) = Inr (- 98)" using float_of_int_small [of "- 98"] by simp
  have f: "fl (- 98) = - 98" using fl_of_int [of "- 98"] by simp
  show "rounded (- 98) = Finite (- 98)"
    using rounded_between(1) [of "- 98" "- 98" "- 98"] f by simp
  have "fl (- 98 * 10 ^ 9) = - 98 * 10 ^ 9" using fl_of_int [of "- 98 * 10 ^ 9"] by simp
  then show "sleep (Finite (- 98)) w = Inl (Exn ValueError None)" by (simp add: sleep_def)
qed

lemma world0_video: "path_exists world0 ''x.mp4''"
  by (simp add: path_exists_def world0_def)

lemma world0_calls: "translator_calls world0 = 0"
  by (simp add: world0_def)

lemma no_results_dir: "ensure_results_dir None save w = Inr w"
  by (simp add: ensure_results_dir_def)

lemma results_dir_out:
  "ensure_results_dir (Some ''out'') True world0 = Inr (world0\<lparr>dirs := {''out''}\<rparr>)"
  by (simp add: ensure_results_dir_def makedirs_def world0_def)

lemma sentinel_failed: "transcription_failed FALLO_TRANSCRIBIENDO"
  by (simp add: transcription_failed_def FALLO_TRANSCRIBIENDO_def)

lemma hello_not_failed: "\<not> transcription_failed ''hello world''"
  by (simp add: transcription_failed_def)

lemma ok_run:
  "fst (process_video env_ok self0 ''x.mp4'' None True True world0) =
     Inr (Some \<lparr>transcription = ''hello world'', translation = Some ''hola mundo'',
                video_path = ''x.mp4''\<rparr>)"
  by (simp add: eval_defs)

lemma whisper_down_extract:
  "extract_audio env_whisper_down ''x.mp4'' (logger INFO ''Procesando video: '' [S ''x.mp4''] world0)
     = (Inr ''/tmp/tmp0.wav'',
        snd (extract_audio env_whisper_down ''x.mp4''
               (logger INFO ''Procesando video: '' [S ''x.mp4''] world0)))"
  by (rule pair_of_fst) (simp add: extract_audio_def Let_def env_whisper_down_def env_ok_def)

lemma whisper_down_transcribe:
  defines "w2 \<equiv> snd (extract_audio env_whisper_down ''x.mp4''
               (logger INFO ''Procesando video: '' [S ''x.mp4''] world0))"
  shows "transcribe_audio env_whisper_down self0 ''/tmp/tmp0.wav'' 0 w2
           = (Inr FALLO_TRANSCRIBIENDO,
              snd (transcribe_audio env_whisper_down self0 ''/tmp/tmp0.wav'' 0 w2))"
    and "whisper_calls (snd (transcribe_audio env_whisper_down self0 ''/tmp/tmp0.wav'' 0 w2)) = 11"
proof -
  have f: "files w2 ''/tmp/tmp0.wav'' = Some ''RIFF''"
    by (simp add: w2_def extract_audio_def Let_def env_whisper_down_def env_ok_def)
  have c: "whisper_calls w2 = 0"
    by (simp add: w2_def extract_audio_def Let_def env_whisper_down_def env_ok_def world0_def)
  have fail: "\<exists>e. whisper_api env_whisper_down n (whisper_model self0) ''/tmp/tmp0.wav'' ''RIFF''
                  = Inl e \<and> retry_after_header e = None" for n
    by (simp add: env_whisper_down_def env_ok_def retry_after_header_def)
  have jit: "0 \<le> random env_whisper_down n \<and> random env_whisper_down n \<le> 1 - 1 / 2 ^ 53"
    for n
    by (simp add: env_whisper_down_def env_ok_def)
  obtain r w3 where ta: "transcribe_audio env_whisper_down self0 ''/tmp/tmp0.wav'' 0 w2 = (r, w3)"
    by (rule prod.exhaust)
  from transcribe_audio_exhausted [OF fail jit f ta] c
  have "r = Inr FALLO_TRANSCRIBIENDO" and "whisper_calls w3 = 11" by simp_all
  with ta show "transcribe_audio env_whisper_down self0 ''/tmp/tmp0.wav'' 0 w2
           = (Inr FALLO_TRANSCRIBIENDO,
              snd (transcribe_audio env_whisper_down self0 ''/tmp/tmp0.wav'' 0 w2))"
    and "whisper_calls (snd (transcribe_audio env_whisper_down self0 ''/tmp/tmp0.wav'' 0 w2)) = 11"
    by simp_all
qed

lemma translator_down_steps:
  defines "w2 \<equiv> \<lambda>w. snd (extract_audio env_translator_down ''x.mp4''
                             (logger INFO ''Procesando video: '' [S ''x.mp4''] w))"
  defines "w3 \<equiv> \<lambda>w. snd (transcribe_audio env_translator_down self0 ''/tmp/tmp0.wav'' 0 (w2 w))"
  defines "w4 \<equiv> \<lambda>w. snd (translate_text env_translator_down self0 ''hello world'' 0 (w3 w))"
  shows "extract_audio env_translator_down ''x.mp4''
           (logger INFO ''Procesando video: '' [S ''x.mp4''] w) = (Inr ''/tmp/tmp0.wav'', w2 w)"
    and "transcribe_audio env_translator_down self0 ''/tmp/tmp0.wav'' 0 (w2 w)
           = (Inr ''hello world'', w3 w)"
    and "translate_text env_translator_down self0 ''hello world'' 0 (w3 w)
           = (Inr FALLO_TRADUCIENDO, w4 w)"
    and "translator_calls (w4 w) = translator_calls (w3 w) + 11"
    and "files (w4 w) = (files w)(''/tmp/tmp0.wav'' \<mapsto> ''RIFF'')"
proof -
  show ea: "extract_audio env_translator_down ''x.mp4''
           (logger INFO ''Procesando video: '' [S ''x.mp4''] w) = (Inr ''/tmp/tmp0.wav'', w2 w)"
    unfolding w2_def
    by (rule pair_of_fst)
       (simp add: extract_audio_def Let_def env_translator_down_def env_ok_def)
  have f2: "files (w2 w) = (files w)(''/tmp/tmp0.wav'' \<mapsto> ''RIFF'')"
    using extract_audio_Inr [OF ea]
    by (auto simp: env_translator_down_def env_ok_def)
  show ta: "transcribe_audio env_translator_down self0 ''/tmp/tmp0.wav'' 0 (w2 w)
           = (Inr ''hello world'', w3 w)"
    unfolding w3_def
    by (rule pair_of_fst)
       (simp add: transcribe_audio.simps [of _ _ _ 0] transcription_request_def f2
          env_translator_down_def env_ok_def)
  have fmt: "str_format env_translator_down (translation_prompt self0) ''hello world''
               = Inr (render ''Traduce: {text}'' ''hello world'')"
    by (simp add: env_translator_down_def env_ok_def self0_def)
  have fail: "\<exists>e. translator_api env_translator_down n (translation_model self0)
                    (render ''Traduce: {text}'' ''hello world'') = Inl e
                \<and> retry_after_header e = None" for n
    by (simp add: env_translator_down_def env_ok_def retry_after_header_def)
  have jit: "0 \<le> random env_translator_down n
               \<and> random env_translator_down n \<le> 1 - 1 / 2 ^ 53" for n
    by (simp add: env_translator_down_def env_ok_def)
  obtain r w' where tt:
    "translate_text env_translator_down self0 ''hello world'' 0 (w3 w) = (r, w')"
    by (rule prod.exhaust)
  from translate_text_exhausted [OF fmt fail jit tt]
  have r: "r = Inr FALLO_TRADUCIENDO" and c: "translator_calls w' = translator_calls (w3 w) + 11"
    by simp_all
  from tt have w': "w' = w4 w" by (simp add: w4_def)
  from tt r w' show tt': "translate_text env_translator_down self0 ''hello world'' 0 (w3 w)
           = (Inr FALLO_TRADUCIENDO, w4 w)" by simp
  from c w' show "translator_calls (w4 w) = translator_calls (w3 w) + 11" by simp
  from translate_text_frame [OF tt'] transcribe_audio_frame [OF ta] f2
  show "files (w4 w) = (files w)(''/tmp/tmp0.wav'' \<mapsto> ''RIFF'')" by simp
qed

section \<open>A failed write\<close>

text \<open>
  What \<^verbatim>\<open>save_text\<close> does when writing fails, for every kind of failure: one ERROR record
  with the path and the exception is logged and the function returns normally. When it
  is \<^verbatim>\<open>open\<close> that fails, the files are unchanged. The save step of \<^verbatim>\<open>process_video\<close>
  (lines 302 to 307) therefore never raises.
\<close>

lemma save_text_absorbs_failure:
  assumes "write_fault env file_path = Some fault"
  shows "fst (save_text env text file_path w) = Inr ()
       \<and> logged (snd (save_text env text file_path w)) =
           logged w @ [(ERROR, ''Error guardando archivo : '',
                        [S file_path, E (case fault of OpenFails e \<Rightarrow> e | WriteFails e n \<Rightarrow> e)])]
       \<and> (\<forall>e. fault = OpenFails e \<longrightarrow> files (snd (save_text env text file_path w)) = files w)
       \<and> fst (save_results env results_path save stem transcript translated w) = Inr ()"
  using assms save_results_Inr [of env results_path save stem transcript translated w]
  by (simp add: save_text_def split: write_fault.splits)

text \<open>
  Claim C3. A write failure is to be logged and raised to the caller of the save
  operation. In the code it is logged and not raised: the handler of \<^verbatim>\<open>save_text\<close> (lines
  242 and 243) has no \<^verbatim>\<open>raise\<close>, where the handlers of \<^verbatim>\<open>extract_audio\<close> and of
  \<^verbatim>\<open>process_video\<close> log and raise again. With no file writable, \<^verbatim>\<open>save_text\<close> returns
  normally and logs the error; \<^verbatim>\<open>process_video\<close> then returns the same result as when both
  files are written and its last log record is the one of a processed video, although the
  translation file does not exist.
\<close>

theorem save_text_swallows_write_failure:
  "write_fault env_read_only ''out/x_translation.txt'' = Some (OpenFails (Exn OSError None))
   \<and> save_text env_read_only ''hola mundo'' ''out/x_translation.txt'' world0 =
       (Inr (), logger ERROR ''Error guardando archivo : ''
                  [S ''out/x_translation.txt'', E (Exn OSError None)] world0)
   \<and> fst (process_video env_read_only self0 ''x.mp4'' (Some ''out'') True True world0) =
       Inr (Some \<lparr>transcription = ''hello world'', translation = Some ''hola mundo'',
                  video_path = ''x.mp4''\<rparr>)
   \<and> last (logged (snd (process_video env_read_only self0 ''x.mp4'' (Some ''out'') True True
                          world0)))
       = (INFO, ''Video procesado exitosamente: '', [S ''x.mp4''])
   \<and> files (snd (process_video env_read_only self0 ''x.mp4'' (Some ''out'') True True world0))
       ''out/x_translation.txt'' = None"
proof -
  have a: "write_fault env_read_only ''out/x_translation.txt''
             = Some (OpenFails (Exn OSError None))"
    by (simp add: env_read_only_def)
  have b: "save_text env_read_only ''hola mundo'' ''out/x_translation.txt'' world0 =
       (Inr (), logger ERROR ''Error guardando archivo : ''
                  [S ''out/x_translation.txt'', E (Exn OSError None)] world0)"
    by (simp add: save_text_def a)
  have c: "fst (process_video env_read_only self0 ''x.mp4'' (Some ''out'') True True world0) =
       Inr (Some \<lparr>transcription = ''hello world'', translation = Some ''hola mundo'',
                  video_path = ''x.mp4''\<rparr>)"
    by (simp add: eval_defs)
  have d: "last (logged (snd (process_video env_read_only self0 ''x.mp4'' (Some ''out'') True True
                          world0)))
       = (INFO, ''Video procesado exitosamente: '', [S ''x.mp4''])"
    by (simp add: eval_defs)
  have e: "files (snd (process_video env_read_only self0 ''x.mp4'' (Some ''out'') True True
                         world0)) ''out/x_translation.txt'' = None"
    by (simp add: eval_defs)
  from a b c d e show ?thesis by blast
qed

section \<open>The short circuit after a failed transcription\<close>

text \<open>
  Claim C4, as the code has it. In a run where the transcription step returns the failure
  string (or any text that contains \<^verbatim>\<open>FALLO TRANSCRIBIENDO\<close>), no request is sent to the
  translation service, and \<^verbatim>\<open>process_video\<close> returns the record with that text as
  transcription and no translation when \<^verbatim>\<open>return_results\<close> is set, and \<^verbatim>\<open>None\<close> when it
  is not set, which is the default.
\<close>

theorem transcription_sentinel_short_circuits:
  assumes "path_exists w video"
      and "ensure_results_dir results_path save w = Inr w1"
      and "extract_audio env video (logger INFO ''Procesando video: '' [S video] w1)
             = (Inr audio_path, w2)"
      and "transcribe_audio env self audio_path 0 w2 = (Inr t, w3)"
      and "transcription_failed t"
  shows "fst (process_video env self video results_path save return_results w) =
           Inr (if return_results
                then Some \<lparr>transcription = t, translation = None, video_path = video\<rparr>
                else None)
       \<and> translator_calls (snd (process_video env self video results_path save return_results w))
           = translator_calls w"
  using process_video_short_circuit [OF assms, of return_results]
    run_translator_calls [OF assms(2) assms(3) assms(4)]
  by (simp add: Let_def)

theorem transcription_sentinel_short_circuits_witness:
  "fst (process_video env_whisper_down self0 ''x.mp4'' None True True world0) =
     Inr (Some \<lparr>transcription = FALLO_TRANSCRIBIENDO, translation = None, video_path = ''x.mp4''\<rparr>)
   \<and> translator_calls (snd (process_video env_whisper_down self0 ''x.mp4'' None True True world0))
       = 0"
  using transcription_sentinel_short_circuits [OF world0_video no_results_dir
          whisper_down_extract whisper_down_transcribe(1) sentinel_failed,
          where save = True and return_results = True]
  by (simp add: world0_def)

text \<open>
  The transcription service is down, 11 requests fail, and with the default
  \<^verbatim>\<open>return_results=False\<close> the call returns \<^verbatim>\<open>None\<close>: no result carries the failure string.
\<close>

theorem short_circuit_result_counterexample:
  "whisper_calls (snd (process_video env_whisper_down self0 ''x.mp4'' None True False world0)) = 11
   \<and> translator_calls (snd (process_video env_whisper_down self0 ''x.mp4'' None True False world0)) = 0
   \<and> fst (process_video env_whisper_down self0 ''x.mp4'' None True False world0) = Inr None"
  using process_video_short_circuit [OF world0_video no_results_dir
          whisper_down_extract whisper_down_transcribe(1) sentinel_failed,
          where save = True and return_results = False]
    whisper_down_transcribe(2)
    run_translator_calls [OF no_results_dir whisper_down_extract whisper_down_transcribe(1)]
  by (simp add: Let_def world0_def)

section \<open>The temporary audio file\<close>

text \<open>
  Claim C7. Once the existence test and the results directory have passed and the audio
  has been extracted, the temporary audio file does not exist after \<^verbatim>\<open>process_video\<close>,
  whatever the transcription, the translation and the save step did and whether the call
  returned or raised. Removing a regular file is taken to succeed.
\<close>

theorem temporary_audio_released:
  assumes "path_exists w video"
      and "ensure_results_dir results_path save w = Inr w1"
      and "video_clip env video = Inr (Inr audio)"
  shows "files (snd (process_video env self video results_path save return_results w))
           (temp_name env (temps w)) = None"
proof -
  let ?w0 = "logger INFO ''Procesando video: '' [S video] w1"
  obtain audio_path w2 where ex: "extract_audio env video ?w0 = (Inr audio_path, w2)"
    using extract_audio_succeeds [OF assms(3), of ?w0]
    by (cases "extract_audio env video ?w0") simp
  from extract_audio_Inr [OF ex] ensure_results_dir_frame [OF assms(2)]
  have ap: "audio_path = temp_name env (temps w)" by simp
  obtain r w3 where pa:
    "process_audio env self video results_path save return_results audio_path w2 = (r, w3)"
    by (rule prod.exhaust)
  note run = process_video_run [OF assms(1) assms(2) ex pa]
  show ?thesis
  proof (cases r)
    case (Inl e)
    with run released [of w3 audio_path] ap show ?thesis by simp
  next
    case (Inr x)
    with run released [of w3 audio_path] ap show ?thesis by simp
  qed
qed

text \<open>
  A run in which the translation step raises (the wait is negative): the call raises
  ValueError and the temporary file is gone.
\<close>

theorem temporary_audio_released_witness:
  "fst (process_video env_negative_hint self0 ''x.mp4'' (Some ''out'') True True world0)
     = Inl (Exn ValueError None)
   \<and> files (snd (process_video env_negative_hint self0 ''x.mp4'' (Some ''out'') True True world0))
       ''/tmp/tmp0.wav'' = None"
proof -
  have a: "path_exists world0 ''x.mp4''" by (simp add: path_exists_def world0_def)
  have b: "ensure_results_dir (Some ''out'') True world0 = Inr (world0\<lparr>dirs := {''out''}\<rparr>)"
    by (simp add: ensure_results_dir_def makedirs_def world0_def)
  have c: "video_clip env_negative_hint ''x.mp4'' = Inr (Inr ''RIFF'')"
    by (simp add: env_negative_hint_def env_ok_def)
  have d: "temp_name env_negative_hint (temps world0) = ''/tmp/tmp0.wav''"
    by (simp add: env_negative_hint_def env_ok_def)
  have e: "fst (process_video env_negative_hint self0 ''x.mp4'' (Some ''out'') True True world0)
     = Inl (Exn ValueError None)"
    by (simp add: eval_defs uniform_zero negative_wait)
  from temporary_audio_released [OF a b c, of self0 True] d e show ?thesis by simp
qed

section \<open>What a normal return gives\<close>

text \<open>
  Claim C8, as the code has it. When \<^verbatim>\<open>process_video\<close> returns without raising, the value
  is \<^verbatim>\<open>None\<close> if \<^verbatim>\<open>return_results\<close> is not set (the default). If it is set, the value is
  the record of \<open>transcription\<close>, \<open>translation\<close> and \<open>video_path\<close>: the text the
  transcription step of this run returned, the text the translation step returned (no
  translation when the transcription contains the failure marker), and the path given.
\<close>

theorem process_video_result:
  assumes "process_video env self video results_path save return_results w = (Inr r, w')"
  shows "(\<not> return_results \<longrightarrow> r = None)
       \<and> (\<exists>w1 audio_path w2 t w3.
             ensure_results_dir results_path save w = Inr w1 \<and>
             extract_audio env video (logger INFO ''Procesando video: '' [S video] w1)
               = (Inr audio_path, w2) \<and>
             transcribe_audio env self audio_path 0 w2 = (Inr t, w3) \<and>
             (if transcription_failed t
              then r = (if return_results
                        then Some \<lparr>transcription = t, translation = None, video_path = video\<rparr>
                        else None)
              else \<exists>tr w4. translate_text env self t 0 w3 = (Inr tr, w4) \<and>
                     r = (if return_results
                          then Some \<lparr>transcription = t, translation = Some tr,
                                     video_path = video\<rparr>
                          else None)))"
proof -
  from process_video_Inr_cases [OF assms] obtain w1 audio_path w2 w3 where
    dir: "ensure_results_dir results_path save w = Inr w1" and
    ea: "extract_audio env video (logger INFO ''Procesando video: '' [S video] w1)
           = (Inr audio_path, w2)" and
    pa: "process_audio env self video results_path save return_results audio_path w2 = (Inr r, w3)"
    by blast
  from process_audio_Inr_cases [OF pa] obtain t w4 where
    ta: "transcribe_audio env self audio_path 0 w2 = (Inr t, w4)" and
    rest: "if transcription_failed t
           then r = (if return_results
                     then Some \<lparr>transcription = t, translation = None, video_path = video\<rparr>
                     else None)
           else \<exists>tr w5. translate_text env self t 0 w4 = (Inr tr, w5) \<and>
                  r = (if return_results
                       then Some \<lparr>transcription = t, translation = Some tr, video_path = video\<rparr>
                       else None)"
    by blast
  from rest have "\<not> return_results \<longrightarrow> r = None"
    by (auto split: if_splits)
  moreover from dir ea ta rest have "\<exists>w1 audio_path w2 t w3.
             ensure_results_dir results_path save w = Inr w1 \<and>
             extract_audio env video (logger INFO ''Procesando video: '' [S video] w1)
               = (Inr audio_path, w2) \<and>
             transcribe_audio env self audio_path 0 w2 = (Inr t, w3) \<and>
             (if transcription_failed t
              then r = (if return_results
                        then Some \<lparr>transcription = t, translation = None, video_path = video\<rparr>
                        else None)
              else \<exists>tr w4. translate_text env self t 0 w3 = (Inr tr, w4) \<and>
                     r = (if return_results
                          then Some \<lparr>transcription = t, translation = Some tr,
                                     video_path = video\<rparr>
                          else None))"
    by blast
  ultimately show ?thesis by blast
qed

theorem process_video_result_witness:
  "\<exists>audio_path w2 w3 w4.
     transcribe_audio env_ok self0 audio_path 0 w2 = (Inr ''hello world'', w3) \<and>
     translate_text env_ok self0 ''hello world'' 0 w3 = (Inr ''hola mundo'', w4)"
  using process_video_result [OF pair_of_fst [OF ok_run]]
  by (fastforce split: if_splits)

text \<open>
  The same successful run with and without \<^verbatim>\<open>return_results\<close>: the record in one case,
  \<^verbatim>\<open>None\<close> in the other.
\<close>

theorem process_video_result_counterexample:
  "fst (process_video env_ok self0 ''x.mp4'' None True True world0) =
     Inr (Some \<lparr>transcription = ''hello world'', translation = Some ''hola mundo'',
                video_path = ''x.mp4''\<rparr>)
   \<and> fst (process_video env_ok self0 ''x.mp4'' None True False world0) = Inr None"
  by (simp add: eval_defs)

section \<open>How the failure string is detected\<close>

lemma batch_step_returned:
  "batch_step (Inr (Some r)) s =
     (if transcription r \<noteq> [] \<and> (\<nexists>b. transcription r = ''FALLO'' @ b)
         \<and> translation r \<noteq> None
      then s\<lparr>processed_count := processed_count s + 1\<rparr>
      else s\<lparr>error_count := error_count s + 1\<rparr>)"
  by (cases "translation r")
     (simp_all add: batch_step_def batch_success_def translation_preview_def startswith_iff)

lemma returned_translation:
  assumes "process_video env self video results_path save return_results w = (Inr (Some r), w')"
  shows "translation r = None \<longleftrightarrow> (\<exists>a b. transcription r = a @ ''FALLO TRANSCRIBIENDO'' @ b)"
proof -
  from process_video_Inr_cases [OF assms] obtain w1 audio_path w2 w3 where
    pa: "process_audio env self video results_path save return_results audio_path w2
           = (Inr (Some r), w3)"
    by blast
  from process_audio_Inr_cases [OF pa] obtain t' w4 where
    rest: "if transcription_failed t'
           then Some r = (if return_results
                     then Some \<lparr>transcription = t', translation = None, video_path = video\<rparr>
                     else None)
           else \<exists>tr w5. translate_text env self t' 0 w4 = (Inr tr, w5) \<and>
                  Some r = (if return_results
                       then Some \<lparr>transcription = t', translation = Some tr,
                                  video_path = video\<rparr>
                       else None)"
    by blast
  then have "translation r = None \<longleftrightarrow> transcription_failed (transcription r)"
    by (auto split: if_splits)
  then show ?thesis by (simp add: transcription_failed_iff)
qed

text \<open>
  Claim C9, as the code has it. \<^verbatim>\<open>process_video\<close> tests for the marker with \<^verbatim>\<open>in\<close>: the
  record it returns has no translation exactly when \<^verbatim>\<open>FALLO TRANSCRIBIENDO\<close> occurs
  somewhere in the transcription. The test of line 524 in the batch front end passes
  exactly when the transcription is not empty and does not start with \<^verbatim>\<open>FALLO\<close>. The
  front end counts a record returned by \<^verbatim>\<open>process_video\<close> as processed exactly when its
  transcription is not empty, does not start with \<^verbatim>\<open>FALLO\<close> and does not contain
  \<^verbatim>\<open>FALLO TRANSCRIBIENDO\<close>, and as an error otherwise: a record without translation that
  passes the test of line 524 makes the preview raise TypeError, which is counted as an
  error. A transcription that starts with \<^verbatim>\<open>FALLO TRANSCRIBIENDO\<close> is a failure for
  \<^verbatim>\<open>process_video\<close>, fails the test of line 524 and is counted as an error.
\<close>

theorem failure_detection:
  "(process_video env self video results_path save return_results w = (Inr (Some r), w') \<longrightarrow>
      (translation r = None \<longleftrightarrow> (\<exists>a b. transcription r = a @ ''FALLO TRANSCRIBIENDO'' @ b))
      \<and> batch_step (Inr (Some r)) s =
          (if transcription r \<noteq> [] \<and> (\<nexists>b. transcription r = ''FALLO'' @ b)
              \<and> (\<nexists>a b. transcription r = a @ ''FALLO TRANSCRIBIENDO'' @ b)
           then s\<lparr>processed_count := processed_count s + 1\<rparr>
           else s\<lparr>error_count := error_count s + 1\<rparr>))
   \<and> (batch_success resultado \<longleftrightarrow>
        (\<exists>r. resultado = Some r \<and> transcription r \<noteq> []
             \<and> (\<nexists>b. transcription r = ''FALLO'' @ b)))
   \<and> ((\<exists>b. t = ''FALLO TRANSCRIBIENDO'' @ b) \<longrightarrow>
        transcription_failed t
        \<and> \<not> batch_success (Some \<lparr>transcription = t, translation = tr, video_path = video\<rparr>)
        \<and> batch_step (Inr (Some \<lparr>transcription = t, translation = tr, video_path = video\<rparr>)) s
            = s\<lparr>error_count := error_count s + 1\<rparr>)"
proof -
  have a: "(translation r = None \<longleftrightarrow> (\<exists>a b. transcription r = a @ ''FALLO TRANSCRIBIENDO'' @ b))
      \<and> batch_step (Inr (Some r)) s =
          (if transcription r \<noteq> [] \<and> (\<nexists>b. transcription r = ''FALLO'' @ b)
              \<and> (\<nexists>a b. transcription r = a @ ''FALLO TRANSCRIBIENDO'' @ b)
           then s\<lparr>processed_count := processed_count s + 1\<rparr>
           else s\<lparr>error_count := error_count s + 1\<rparr>)"
    if run: "process_video env self video results_path save return_results w = (Inr (Some r), w')"
  proof -
    note tr = returned_translation [OF run]
    have "(translation r \<noteq> None) = (\<nexists>a b. transcription r = a @ ''FALLO TRANSCRIBIENDO'' @ b)"
      by (simp only: tr)
    then have "batch_step (Inr (Some r)) s =
          (if transcription r \<noteq> [] \<and> (\<nexists>b. transcription r = ''FALLO'' @ b)
              \<and> (\<nexists>a b. transcription r = a @ ''FALLO TRANSCRIBIENDO'' @ b)
           then s\<lparr>processed_count := processed_count s + 1\<rparr>
           else s\<lparr>error_count := error_count s + 1\<rparr>)"
      by (simp only: batch_step_returned)
    with tr show ?thesis by blast
  qed
  have b: "batch_success resultado \<longleftrightarrow>
        (\<exists>r. resultado = Some r \<and> transcription r \<noteq> []
             \<and> (\<nexists>b. transcription r = ''FALLO'' @ b))"
    by (cases resultado) (simp_all add: batch_success_def startswith_iff)
  have c: "transcription_failed t
        \<and> \<not> batch_success (Some \<lparr>transcription = t, translation = tr, video_path = video\<rparr>)
        \<and> batch_step (Inr (Some \<lparr>transcription = t, translation = tr, video_path = video\<rparr>)) s
            = s\<lparr>error_count := error_count s + 1\<rparr>"
    if "\<exists>b. t = ''FALLO TRANSCRIBIENDO'' @ b"
  proof -
    from that obtain b where t: "t = ''FALLO TRANSCRIBIENDO'' @ b" by blast
    then have "t = [] @ ''FALLO TRANSCRIBIENDO'' @ b" by simp
    then have "transcription_failed t" unfolding transcription_failed_iff by blast
    moreover from t have "startswith t ''FALLO''" by simp
    ultimately show ?thesis by (simp add: batch_success_def batch_step_def)
  qed
  from a b c show ?thesis by blast
qed

lemma marker_inside_run:
  "fst (process_video env_marker_inside self0 ''x.mp4'' None True True world0) =
     Inr (Some \<lparr>transcription = ''no hubo FALLO TRANSCRIBIENDO'', translation = None,
                video_path = ''x.mp4''\<rparr>)"
  by (simp add: eval_defs)

theorem failure_detection_witness:
  "(\<exists>a b. ''no hubo FALLO TRANSCRIBIENDO'' = a @ ''FALLO TRANSCRIBIENDO'' @ b)
   \<and> batch_step (Inr (Some \<lparr>transcription = ''no hubo FALLO TRANSCRIBIENDO'',
                             translation = None, video_path = ''x.mp4''\<rparr>)) summary0
       = \<lparr>processed_count = 0, error_count = 1\<rparr>
   \<and> transcription_failed FALLO_TRANSCRIBIENDO
   \<and> \<not> batch_success (Some \<lparr>transcription = FALLO_TRANSCRIBIENDO, translation = None,
                               video_path = ''x.mp4''\<rparr>)
   \<and> batch_step (Inr (Some \<lparr>transcription = FALLO_TRANSCRIBIENDO, translation = None,
                             video_path = ''x.mp4''\<rparr>)) summary0
       = \<lparr>processed_count = 0, error_count = 1\<rparr>"
proof -
  note th = failure_detection [where env = env_marker_inside and self = self0
      and video = "''x.mp4''" and results_path = None and save = True and return_results = True
      and w = world0
      and r = "\<lparr>transcription = ''no hubo FALLO TRANSCRIBIENDO'', translation = None,
        video_path = ''x.mp4''\<rparr>"
      and w' = "snd (process_video env_marker_inside self0 ''x.mp4'' None True True world0)"
      and t = FALLO_TRANSCRIBIENDO and tr = None and s = summary0]
  note run = pair_of_fst [OF marker_inside_run]
  from th [THEN conjunct1, rule_format, OF run]
  have a: "\<exists>a b. ''no hubo FALLO TRANSCRIBIENDO'' = a @ ''FALLO TRANSCRIBIENDO'' @ b"
    by simp
  from th [THEN conjunct1, rule_format, OF run] a
  have b: "batch_step (Inr (Some \<lparr>transcription = ''no hubo FALLO TRANSCRIBIENDO'',
                             translation = None, video_path = ''x.mp4''\<rparr>)) summary0
       = \<lparr>processed_count = 0, error_count = 1\<rparr>"
    by (simp add: summary0_def)
  have "\<exists>b. FALLO_TRANSCRIBIENDO = ''FALLO TRANSCRIBIENDO'' @ b"
    by (simp add: FALLO_TRANSCRIBIENDO_def)
  with th [THEN conjunct2, THEN conjunct2]
  have c: "transcription_failed FALLO_TRANSCRIBIENDO
    \<and> \<not> batch_success (Some \<lparr>transcription = FALLO_TRANSCRIBIENDO, translation = None,
                               video_path = ''x.mp4''\<rparr>)
    \<and> batch_step (Inr (Some \<lparr>transcription = FALLO_TRANSCRIBIENDO, translation = None,
                             video_path = ''x.mp4''\<rparr>)) summary0
       = \<lparr>processed_count = 0, error_count = 1\<rparr>"
    by (simp add: summary0_def)
  from a b c show ?thesis by blast
qed

text \<open>
  A transcription with the marker at its end does not start with it, and is still treated
  as a failure by \<^verbatim>\<open>process_video\<close>: no translation is requested, and the front end counts
  the video as an error. An empty transcription does not start with \<^verbatim>\<open>FALLO\<close>, and the
  front end counts it as an error too.
\<close>

theorem prefix_detection_counterexample:
  "fst (process_video env_marker_inside self0 ''x.mp4'' None True True world0) =
     Inr (Some \<lparr>transcription = ''no hubo FALLO TRANSCRIBIENDO'', translation = None,
                video_path = ''x.mp4''\<rparr>)
   \<and> translator_calls (snd (process_video env_marker_inside self0 ''x.mp4'' None True True world0))
       = 0
   \<and> \<not> startswith ''no hubo FALLO TRANSCRIBIENDO'' ''FALLO TRANSCRIBIENDO''
   \<and> batch_step (Inr (Some \<lparr>transcription = ''no hubo FALLO TRANSCRIBIENDO'',
                             translation = None, video_path = ''x.mp4''\<rparr>)) summary0
       = \<lparr>processed_count = 0, error_count = 1\<rparr>
   \<and> batch_step (Inr (Some \<lparr>transcription = [], translation = Some ''hola mundo'',
                             video_path = ''x.mp4''\<rparr>)) summary0
       = \<lparr>processed_count = 0, error_count = 1\<rparr>
   \<and> \<not> startswith [] ''FALLO''"
  by (simp add: eval_defs batch_success_def batch_step_def translation_preview_def
        summary0_def)

section \<open>An exhausted translation goes unnoticed\<close>

text \<open>
  Claim C10, as the code has it. In a run where the translation step returns its failure
  string \<^verbatim>\<open>FALLO TRADUCIENDO EN CANTIDAD DE INTENTOS\<close>, \<^verbatim>\<open>process_video\<close> goes on as after
  a translation: the last log record is the one of a processed video; with
  \<^verbatim>\<open>return_results\<close> set the failure string is the \<open>translation\<close> of the returned record,
  and otherwise \<^verbatim>\<open>None\<close> is returned; with \<^verbatim>\<open>save\<close> set, a non-empty \<^verbatim>\<open>results_path\<close> and
  a write that does not fail, the failure string is the content of the translation file.
  The test of the batch front end gives the same verdict as for any other translation.
\<close>

theorem translation_sentinel_not_detected:
  assumes "path_exists w video"
      and "ensure_results_dir results_path save w = Inr w1"
      and "extract_audio env video (logger INFO ''Procesando video: '' [S video] w1)
             = (Inr audio_path, w2)"
      and "transcribe_audio env self audio_path 0 w2 = (Inr t, w3)"
      and "\<not> transcription_failed t"
      and "translate_text env self t 0 w3 = (Inr FALLO_TRADUCIENDO, w4)"
  shows "fst (process_video env self video results_path save return_results w) =
           Inr (if return_results
                then Some \<lparr>transcription = t, translation = Some FALLO_TRADUCIENDO,
                           video_path = video\<rparr>
                else None)
       \<and> last (logged (snd (process_video env self video results_path save return_results w)))
           = (INFO, ''Video procesado exitosamente: '', [S video])
       \<and> (\<forall>d. save \<and> results_path = Some d \<and> d \<noteq> []
              \<and> write_fault env (path_join env d (path_stem env video @ ''_translation.txt''))
                  = None
              \<and> path_join env d (path_stem env video @ ''_translation.txt'') \<noteq> audio_path
            \<longrightarrow> files (snd (process_video env self video results_path save return_results w))
                  (path_join env d (path_stem env video @ ''_translation.txt''))
                = Some FALLO_TRADUCIENDO)
       \<and> batch_success (Some \<lparr>transcription = t, translation = Some FALLO_TRADUCIENDO,
                               video_path = video\<rparr>)
           = batch_success (Some \<lparr>transcription = t, translation = Some tr,
                                   video_path = video\<rparr>)"
proof -
  note run = process_video_translated [OF assms, of return_results]
  have a: "fst (process_video env self video results_path save return_results w) =
           Inr (if return_results
                then Some \<lparr>transcription = t, translation = Some FALLO_TRADUCIENDO,
                           video_path = video\<rparr>
                else None)"
    by (simp add: run)
  have b: "last (logged (snd (process_video env self video results_path save return_results w)))
           = (INFO, ''Video procesado exitosamente: '', [S video])"
    by (simp add: run Let_def)
  have c: "files (snd (process_video env self video results_path save return_results w))
                  (path_join env d (path_stem env video @ ''_translation.txt''))
                = Some FALLO_TRADUCIENDO"
    if "save" "results_path = Some d" "d \<noteq> []"
       "write_fault env (path_join env d (path_stem env video @ ''_translation.txt'')) = None"
       "path_join env d (path_stem env video @ ''_translation.txt'') \<noteq> audio_path" for d
    using save_results_translation_file [OF that(1) that(2) that(3) that(4),
            of t FALLO_TRADUCIENDO w4] that(5)
    by (simp add: run Let_def)
  have d: "batch_success (Some \<lparr>transcription = t, translation = Some FALLO_TRADUCIENDO,
                               video_path = video\<rparr>)
           = batch_success (Some \<lparr>transcription = t, translation = Some tr,
                                   video_path = video\<rparr>)"
    by (simp add: batch_success_def)
  from a b c d show ?thesis by blast
qed

theorem translation_sentinel_not_detected_witness:
  "fst (process_video env_translator_down self0 ''x.mp4'' (Some ''out'') True True world0) =
     Inr (Some \<lparr>transcription = ''hello world'', translation = Some FALLO_TRADUCIENDO,
                video_path = ''x.mp4''\<rparr>)
   \<and> last (logged (snd (process_video env_translator_down self0 ''x.mp4'' (Some ''out'') True True
                          world0)))
       = (INFO, ''Video procesado exitosamente: '', [S ''x.mp4''])
   \<and> files (snd (process_video env_translator_down self0 ''x.mp4'' (Some ''out'') True True world0))
       ''out/x_translation.txt'' = Some FALLO_TRADUCIENDO"
proof -
  have p: "path_join env_translator_down ''out''
             (path_stem env_translator_down ''x.mp4'' @ ''_translation.txt'')
           = ''out/x_translation.txt''"
    by (simp add: env_translator_down_def env_ok_def drop_extension_def)
  have q: "write_fault env_translator_down ''out/x_translation.txt'' = None"
    by (simp add: env_translator_down_def env_ok_def)
  note th = translation_sentinel_not_detected [OF world0_video results_dir_out
      translator_down_steps(1) translator_down_steps(2) hello_not_failed
      translator_down_steps(3), where return_results = True]
  from th [THEN conjunct1] th [THEN conjunct2, THEN conjunct1]
    th [THEN conjunct2, THEN conjunct2, THEN conjunct1, rule_format, of "''out''"] p q
  show ?thesis by simp
qed

text \<open>
  The translation service is down and 11 requests fail. With the default arguments
  (\<^verbatim>\<open>results_path=None\<close>, \<^verbatim>\<open>return_results=False\<close>) nothing is written and \<^verbatim>\<open>None\<close> is
  returned.
\<close>

theorem translation_sentinel_counterexample:
  "translator_calls (snd (process_video env_translator_down self0 ''x.mp4'' None True False world0))
     = 11
   \<and> fst (process_video env_translator_down self0 ''x.mp4'' None True False world0) = Inr None
   \<and> files (snd (process_video env_translator_down self0 ''x.mp4'' None True False world0))
       = files world0"
proof -
  note run = process_video_translated [OF world0_video no_results_dir
      translator_down_steps(1) translator_down_steps(2) hello_not_failed
      translator_down_steps(3), where save = True and return_results = False]
  note calls = run_translator_calls [OF no_results_dir translator_down_steps(1)
      translator_down_steps(2)]
  have a: "fst (process_video env_translator_down self0 ''x.mp4'' None True False world0) = Inr None"
    by (simp add: run)
  have b: "translator_calls
      (snd (process_video env_translator_down self0 ''x.mp4'' None True False world0)) = 11"
    using translator_down_steps(4) [of world0] calls [of world0] world0_calls
    by (simp add: run Let_def save_results_None)
  have "files world0 ''/tmp/tmp0.wav'' = None" by (simp add: world0_def)
  then have c: "files (snd (process_video env_translator_down self0 ''x.mp4'' None True False
                             world0)) = files world0"
    by (simp add: run Let_def save_results_None translator_down_steps(5) path_exists_def
          fun_upd_idem_iff)
  from a b c show ?thesis by blast
qed

end
